theory Spec2Isabelle
  imports Main "HOL-Library.Word" "HOL-Library.Sublist" "HOL-Library.Finite_Map"
    "HOL-Library.Char_ord" "HOL-Library.List_Lexorder"
begin

section \<open>Atlas Storage: quota reporting and the credential store\<close>

text \<open>
  A shallow embedding of three parts of the server: the directory-usage walk
  (\<^verbatim>\<open>internal/server/dir_usage.go\<close>), the quota middleware
  (\<^verbatim>\<open>internal/server/server.go\<close>) and the user store (\<^verbatim>\<open>pkg/user/user.go\<close>).
  Go strings are byte strings and are modelled as \<^typ>\<open>string\<close>; \<^verbatim>\<open>uint64\<close> is
  \<^typ>\<open>64 word\<close>, so that \<open>+\<close> and \<open>-\<close> wrap as they do in Go.
\<close>

type_synonym uint64 = "64 word"

subsection \<open>Operating-system errors\<close>

text \<open>
  The errors the file-system calls can return. \<^verbatim>\<open>os.IsNotExist\<close> holds of the first one only.
\<close>

datatype os_error = ENOENT | EACCES | EIO

definition IsNotExist :: "os_error \<Rightarrow> bool" where
  "IsNotExist e = (e = ENOENT)"

subsection \<open>The directory tree seen by \<^verbatim>\<open>filepath.WalkDir\<close>\<close>

text \<open>
  A directory entry is either a non-directory (\<^verbatim>\<open>d.IsDir()\<close> is false), with its type bits
  (\<^verbatim>\<open>d.Type()\<close>: a regular file, a symbolic link, or a device, pipe or socket) and the
  result of its \<^verbatim>\<open>d.Info()\<close> call (an error, or the \<^verbatim>\<open>int64\<close> that \<^verbatim>\<open>info.Size()\<close>
  returns: for a symbolic link, the length of the target path), or a directory, with the
  result of \<^verbatim>\<open>os.ReadDir\<close> on it: the entries that could be read, sorted by file name,
  and the error, if any. The root is what \<^verbatim>\<open>os.Lstat\<close> finds: an error or an entry.
\<close>

datatype file_type = Regular | Symlink | Special

datatype dir_entry =
    File string file_type "os_error + int"
  | Dir string "dir_entry list" "os_error option"

datatype fs_root = LstatFails os_error | Present dir_entry

text \<open>
  \<^verbatim>\<open>filepath.WalkDir(root, fn)\<close> of the Go library, for a callback that returns \<^verbatim>\<open>nil\<close> or
  an error (the callback of this program never returns \<^verbatim>\<open>SkipDir\<close> or \<^verbatim>\<open>SkipAll\<close>).
  The callback is called as \<^verbatim>\<open>fn(path, d, nil)\<close> on every entry, and a second time as
  \<^verbatim>\<open>fn(path, d, err)\<close> on a directory whose listing failed; the entries that were read
  are walked when the callback answers \<^verbatim>\<open>nil\<close>. The first error of the callback stops
  the walk. The state \<open>'s\<close> is what the callback's closure mutates.
\<close>

type_synonym 's walk_fn = "dir_entry option \<Rightarrow> os_error option \<Rightarrow> 's \<Rightarrow> 's \<times> os_error option"

fun walkDir :: "'s walk_fn \<Rightarrow> dir_entry \<Rightarrow> 's \<Rightarrow> 's \<times> os_error option"
  and walkEntries :: "'s walk_fn \<Rightarrow> dir_entry list \<Rightarrow> 's \<Rightarrow> 's \<times> os_error option" where
  "walkDir fn (File n ty i) s = fn (Some (File n ty i)) None s"
| "walkDir fn (Dir n es rerr) s =
     (case fn (Some (Dir n es rerr)) None s of
        (s1, Some e) \<Rightarrow> (s1, Some e)
      | (s1, None) \<Rightarrow>
          (case rerr of
             None \<Rightarrow> walkEntries fn es s1
           | Some re \<Rightarrow>
               (case fn (Some (Dir n es rerr)) (Some re) s1 of
                  (s2, Some e) \<Rightarrow> (s2, Some e)
                | (s2, None) \<Rightarrow> walkEntries fn es s2)))"
| "walkEntries fn [] s = (s, None)"
| "walkEntries fn (d # ds) s =
     (case walkDir fn d s of
        (s1, Some e) \<Rightarrow> (s1, Some e)
      | (s1, None) \<Rightarrow> walkEntries fn ds s1)"

definition WalkDir :: "'s walk_fn \<Rightarrow> fs_root \<Rightarrow> 's \<Rightarrow> 's \<times> os_error option" where
  "WalkDir fn root s =
     (case root of
        LstatFails e \<Rightarrow> fn None (Some e) s
      | Present d \<Rightarrow> walkDir fn d s)"

subsection \<open>\<^verbatim>\<open>getDirUsedBytes\<close>\<close>

text \<open>
  The callback of \<^verbatim>\<open>getDirUsedBytes\<close>, in the order of the source: an error handed in by
  the walk is dropped when it is a not-exist error and returned otherwise; a directory
  adds nothing; an entry whose \<^verbatim>\<open>Info()\<close> fails adds nothing; any other entry adds
  \<^verbatim>\<open>uint64(info.Size())\<close> to the running total. The last equation is the call
  \<^verbatim>\<open>fn(path, nil, nil)\<close>, which \<^verbatim>\<open>WalkDir\<close> never makes.
\<close>

fun usageFn :: "uint64 walk_fn" where
  "usageFn d (Some e) tot = (if IsNotExist e then (tot, None) else (tot, Some e))"
| "usageFn (Some (Dir n es rerr)) None tot = (tot, None)"
| "usageFn (Some (File n ty (Inl e))) None tot = (tot, None)"
| "usageFn (Some (File n ty (Inr sz))) None tot = (tot + word_of_int sz, None)"
| "usageFn None None tot = (tot, None)"

definition getDirUsedBytes :: "fs_root \<Rightarrow> uint64 \<times> os_error option" where
  "getDirUsedBytes root = WalkDir usageFn root 0"




subsection \<open>Decimal rendering\<close>

text \<open>
  \<^verbatim>\<open>%d\<close> of \<^verbatim>\<open>fmt.Sprintf\<close> on a \<^verbatim>\<open>uint64\<close> and \<^verbatim>\<open>strconv.Itoa\<close> on a length both
  print a non-negative number in decimal, most significant digit first, no leading zero.
\<close>

function FormatUint :: "nat \<Rightarrow> string" where
  "FormatUint n =
     (if n < 10 then [char_of (48 + n)]
      else FormatUint (n div 10) @ [char_of (48 + n mod 10)])"
  by pat_completeness auto
termination
  by (relation "measure id") auto

declare FormatUint.simps [simp del]

subsection \<open>Regular expressions\<close>

text \<open>
  The two patterns of the middleware are sequences of literals and of character classes
  under \<^verbatim>\<open>*\<close> or \<^verbatim>\<open>+\<close>. \<open>rx_match\<close> matches such a sequence at the start of a string
  the way Go's \<^verbatim>\<open>regexp\<close> prefers matches: a repetition takes as many characters as it can
  and gives back one at a time while the rest of the pattern fails. The result is the text
  matched by each item. \<open>rx_find\<close> is the leftmost position with a match.
\<close>

datatype rx = Lit string | Star "char \<Rightarrow> bool" | Plus "char \<Rightarrow> bool"

fun rx_match :: "rx list \<Rightarrow> string \<Rightarrow> string list option" where
  "rx_match [] s = Some []"
| "rx_match (Lit l # rs) s =
     (if prefix l s then map_option (Cons l) (rx_match rs (drop (length l) s)) else None)"
| "rx_match (Star c # rs) [] = map_option (Cons []) (rx_match rs [])"
| "rx_match (Star c # rs) (x # xs) =
     (if c x then
        (case rx_match (Star c # rs) xs of
           Some (m # ms) \<Rightarrow> Some ((x # m) # ms)
         | _ \<Rightarrow> map_option (Cons []) (rx_match rs (x # xs)))
      else map_option (Cons []) (rx_match rs (x # xs)))"
| "rx_match (Plus c # rs) [] = None"
| "rx_match (Plus c # rs) (x # xs) =
     (if c x then
        (case rx_match (Star c # rs) xs of
           Some (m # ms) \<Rightarrow> Some ((x # m) # ms)
         | _ \<Rightarrow> None)
      else None)"

fun rx_find :: "rx list \<Rightarrow> string \<Rightarrow> (nat \<times> string list) option" where
  "rx_find rs [] = map_option (Pair 0) (rx_match rs [])"
| "rx_find rs (x # xs) =
     (case rx_match rs (x # xs) of
        Some ms \<Rightarrow> Some (0, ms)
      | None \<Rightarrow> map_option (\<lambda>(i, ms). (Suc i, ms)) (rx_find rs xs))"

definition in_range :: "char \<Rightarrow> char \<Rightarrow> char \<Rightarrow> bool" where
  "in_range lo hi c = ((of_char lo :: nat) \<le> of_char c \<and> (of_char c :: nat) \<le> of_char hi)"

text \<open>The class \<^verbatim>\<open>[a-zA-Z0-9_]\<close>.\<close>

definition word_class :: "char \<Rightarrow> bool" where
  "word_class c =
     (in_range CHR ''a'' CHR ''z'' c \<or> in_range CHR ''A'' CHR ''Z'' c \<or>
      in_range CHR ''0'' CHR ''9'' c \<or> c = CHR ''_'')"

text \<open>The class \<^verbatim>\<open>[a-zA-Z0-9_:]\<close>.\<close>

definition tag_class :: "char \<Rightarrow> bool" where
  "tag_class c =
     (in_range CHR ''a'' CHR ''z'' c \<or> in_range CHR ''A'' CHR ''Z'' c \<or>
      in_range CHR ''0'' CHR ''9'' c \<or> c = CHR ''_'' \<or> c = CHR '':'')"

text \<open>\<^verbatim>\<open>(</[a-zA-Z0-9_:]*prop>)\<close>; the group is the whole match.\<close>

definition propEndRegex :: "rx list" where
  "propEndRegex = [Lit ''</'', Star tag_class, Lit ''prop>'']"

text \<open>\<^verbatim>\<open>xmlns:([a-zA-Z0-9_]+)="DAV:"\<close>; the group is the second item.\<close>

definition nsRegex :: "rx list" where
  \<open>nsRegex = [Lit ''xmlns:'', Plus word_class, Lit ''="DAV:"'']\<close>

text \<open>
  \<^verbatim>\<open>nsRegex.FindStringSubmatch\<close>: the whole match and the group, or the nil slice.
  \<^verbatim>\<open>propEndRegex.FindStringIndex\<close>: start and end of the leftmost match, or nil.
\<close>

definition FindStringSubmatch_ns :: "string \<Rightarrow> string list" where
  "FindStringSubmatch_ns s =
     (case rx_find nsRegex s of
        Some (i, [a, g, b]) \<Rightarrow> [a @ g @ b, g]
      | _ \<Rightarrow> [])"

definition FindStringIndex_propEnd :: "string \<Rightarrow> (nat \<times> nat) option" where
  "FindStringIndex_propEnd s =
     map_option (\<lambda>(i, ms). (i, i + length (concat ms))) (rx_find propEndRegex s)"

subsection \<open>HTTP: headers, response writers, handlers\<close>

text \<open>
  \<^verbatim>\<open>textproto.CanonicalMIMEHeaderKey\<close>: a key that holds a byte outside the token
  characters is left as it is; in any other key the first letter and every letter after a
  hyphen are made upper case and all other letters lower case.
\<close>

definition validHeaderFieldByte :: "char \<Rightarrow> bool" where
  "validHeaderFieldByte c =
     (in_range CHR ''a'' CHR ''z'' c \<or> in_range CHR ''A'' CHR ''Z'' c \<or>
      in_range CHR ''0'' CHR ''9'' c \<or>
      c \<in> set [CHR ''!'', CHR ''#'', CHR ''$'', CHR ''%'', CHR ''&'', CHR 0x27, CHR ''*'',
                 CHR ''+'', CHR ''-'', CHR ''.'', CHR ''^'', CHR ''_'', CHR 0x60, CHR ''|'',
                 CHR ''~''])"

definition canonical_byte :: "bool \<Rightarrow> char \<Rightarrow> char" where
  "canonical_byte upper c =
     (if upper \<and> in_range CHR ''a'' CHR ''z'' c then char_of ((of_char c :: nat) - 32)
      else if \<not> upper \<and> in_range CHR ''A'' CHR ''Z'' c then char_of ((of_char c :: nat) + 32)
      else c)"

fun canonical :: "bool \<Rightarrow> string \<Rightarrow> string" where
  "canonical upper [] = []"
| "canonical upper (c # cs) =
     canonical_byte upper c # canonical (canonical_byte upper c = CHR ''-'') cs"

definition CanonicalMIMEHeaderKey :: "string \<Rightarrow> string" where
  "CanonicalMIMEHeaderKey s = (if list_all validHeaderFieldByte s then canonical True s else s)"

text \<open>
  \<^verbatim>\<open>http.Header\<close> maps a key to a list of values; \<^verbatim>\<open>Set\<close>, \<^verbatim>\<open>Add\<close>, \<^verbatim>\<open>Del\<close> and \<^verbatim>\<open>Get\<close>
  work on the canonical form of the key they are given. \<^verbatim>\<open>Get\<close> answers the first value,
  or the empty string.
\<close>

type_synonym Header = "string \<rightharpoonup> string list"

definition Header_Set :: "string \<Rightarrow> string \<Rightarrow> Header \<Rightarrow> Header" where
  "Header_Set key v h = h(CanonicalMIMEHeaderKey key \<mapsto> [v])"

definition Header_Add :: "string \<Rightarrow> string \<Rightarrow> Header \<Rightarrow> Header" where
  "Header_Add key v h =
     (let k = CanonicalMIMEHeaderKey key
      in h(k \<mapsto> (case h k of None \<Rightarrow> [v] | Some vs \<Rightarrow> vs @ [v])))"

definition Header_Del :: "string \<Rightarrow> Header \<Rightarrow> Header" where
  "Header_Del key h = h(CanonicalMIMEHeaderKey key := None)"

definition Header_Get :: "string \<Rightarrow> Header \<Rightarrow> string" where
  "Header_Get key h =
     (case h (CanonicalMIMEHeaderKey key) of None \<Rightarrow> [] | Some [] \<Rightarrow> [] | Some (v # vs) \<Rightarrow> v)"

text \<open>
  The server's \<^verbatim>\<open>http.ResponseWriter\<close>: the header map the handlers edit, what went out
  as status line and headers (nothing, until the first \<^verbatim>\<open>WriteHeader\<close>, which sends the
  status with a copy of the header map; later calls change nothing), and the body bytes
  written so far. \<^verbatim>\<open>Write\<close> calls \<^verbatim>\<open>WriteHeader(200)\<close> first when nothing went out yet.
\<close>

record ResponseWriter =
  header :: Header
  wire :: "(int \<times> Header) option"
  sent :: string

definition WriteHeader :: "int \<Rightarrow> ResponseWriter \<Rightarrow> ResponseWriter" where
  "WriteHeader c w = (case wire w of None \<Rightarrow> w\<lparr>wire := Some (c, header w)\<rparr> | Some x \<Rightarrow> w)"

definition Write :: "string \<Rightarrow> ResponseWriter \<Rightarrow> ResponseWriter" where
  "Write b w = (let w1 = WriteHeader 200 w in w1\<lparr>sent := sent w1 @ b\<rparr>)"

text \<open>
  A handler is known by the calls it makes on the writer it is given, for each request.
\<close>

record Request =
  Method :: string
  Path :: string

datatype call =
    SetHeader string string
  | AddHeader string string
  | DelHeader string
  | CallWriteHeader int
  | CallWrite string

type_synonym Handler = "Request \<Rightarrow> call list"

fun apply_call :: "call \<Rightarrow> ResponseWriter \<Rightarrow> ResponseWriter" where
  "apply_call (SetHeader k v) w = w\<lparr>header := Header_Set k v (header w)\<rparr>"
| "apply_call (AddHeader k v) w = w\<lparr>header := Header_Add k v (header w)\<rparr>"
| "apply_call (DelHeader k) w = w\<lparr>header := Header_Del k (header w)\<rparr>"
| "apply_call (CallWriteHeader c) w = WriteHeader c w"
| "apply_call (CallWrite b) w = Write b w"

text \<open>\<^verbatim>\<open>next.ServeHTTP(w, r)\<close> on the server's writer.\<close>

definition ServeHTTP :: "call list \<Rightarrow> ResponseWriter \<Rightarrow> ResponseWriter" where
  "ServeHTTP cs w = foldl (\<lambda>w c. apply_call c w) w cs"

text \<open>
  \<^verbatim>\<open>responseBuffer\<close> embeds the writer, so \<^verbatim>\<open>Header()\<close> is the writer's own map;
  \<^verbatim>\<open>WriteHeader\<close> only records the code and \<^verbatim>\<open>Write\<close> only appends to the buffer.
\<close>

record responseBuffer =
  embedded :: ResponseWriter
  body :: string
  code :: int

fun apply_call_rb :: "call \<Rightarrow> responseBuffer \<Rightarrow> responseBuffer" where
  "apply_call_rb (SetHeader k v) rb =
     rb\<lparr>embedded := (embedded rb)\<lparr>header := Header_Set k v (header (embedded rb))\<rparr>\<rparr>"
| "apply_call_rb (AddHeader k v) rb =
     rb\<lparr>embedded := (embedded rb)\<lparr>header := Header_Add k v (header (embedded rb))\<rparr>\<rparr>"
| "apply_call_rb (DelHeader k) rb =
     rb\<lparr>embedded := (embedded rb)\<lparr>header := Header_Del k (header (embedded rb))\<rparr>\<rparr>"
| "apply_call_rb (CallWriteHeader c) rb = rb\<lparr>code := c\<rparr>"
| "apply_call_rb (CallWrite b) rb = rb\<lparr>body := body rb @ b\<rparr>"

text \<open>\<^verbatim>\<open>next.ServeHTTP(rb, r)\<close> on the buffer.\<close>

definition ServeHTTP_rb :: "call list \<Rightarrow> responseBuffer \<Rightarrow> responseBuffer" where
  "ServeHTTP_rb cs rb = foldl (\<lambda>rb c. apply_call_rb c rb) rb cs"

subsection \<open>The usage providers\<close>

text \<open>
  \<^verbatim>\<open>getDiskUsage\<close> has two builds. On Linux it reads \<^verbatim>\<open>syscall.Statfs\<close>; elsewhere it
  answers 100 GB free and nothing used. \<^verbatim>\<open>Bsize\<close> is the \<^verbatim>\<open>int64\<close> field as the
  \<^verbatim>\<open>uint64\<close> the code converts it to.
\<close>

record Statfs_t =
  Bsize :: uint64
  Blocks :: uint64
  Bavail :: uint64

definition getDiskUsage_linux :: "os_error + Statfs_t \<Rightarrow> uint64 \<times> uint64 \<times> os_error option" where
  "getDiskUsage_linux r =
     (case r of
        Inl e \<Rightarrow> (0, 0, Some e)
      | Inr stat \<Rightarrow>
          (let free = Bavail stat * Bsize stat;
               total = Blocks stat * Bsize stat;
               used = total - free
           in (free, used, None)))"

definition getDiskUsage_other :: "uint64 \<times> uint64 \<times> os_error option" where
  "getDiskUsage_other = (100 * 1024 * 1024 * 1024, 0, None)"

text \<open>
  What the middleware reads from its surroundings: the build, \<^verbatim>\<open>filepath.Abs\<close> (its
  first result; the code drops the error), \<^verbatim>\<open>syscall.Statfs\<close> and the tree under a path.
\<close>

record Env =
  Linux :: bool
  Abs :: "string \<Rightarrow> string"
  Statfs :: "string \<Rightarrow> os_error + Statfs_t"
  Tree :: "string \<Rightarrow> fs_root"

definition getDiskUsage :: "Env \<Rightarrow> string \<Rightarrow> uint64 \<times> uint64 \<times> os_error option" where
  "getDiskUsage env p =
     (if Linux env then getDiskUsage_linux (Statfs env p) else getDiskUsage_other)"

subsection \<open>\<^verbatim>\<open>quotaMiddleware\<close>\<close>

record Server =
  Addr :: string
  DataDir :: string
  QuotaBytes :: uint64

text \<open>
  Lines 176 to 194: \<open>(free, used, err)\<close>. With a quota, \<open>used\<close> is the size of the data
  directory, cut down to the quota, and \<open>free\<close> the rest of the quota; \<open>free\<close> stays 0
  when the walk fails. Without, both come from \<^verbatim>\<open>getDiskUsage\<close>.
\<close>

definition quotaUsage :: "Server \<Rightarrow> Env \<Rightarrow> uint64 \<times> uint64 \<times> os_error option" where
  "quotaUsage s env =
     (if QuotaBytes s > 0 then
        (case getDirUsedBytes (Tree env (DataDir s)) of
           (used, Some e) \<Rightarrow> (0, used, Some e)
         | (used, None) \<Rightarrow>
             (let used1 = (if used > QuotaBytes s then QuotaBytes s else used);
                  free = (if QuotaBytes s \<ge> used1 then QuotaBytes s - used1 else 0)
              in (free, used1, None)))
      else
        (let absPath = Abs env (DataDir s);
             absPath1 = (if absPath = [] then DataDir s else absPath)
         in getDiskUsage env absPath1))"

text \<open>The \<^verbatim>\<open>fmt.Sprintf\<close> of lines 206 to 209.\<close>

definition quotaXML :: "string \<Rightarrow> uint64 \<Rightarrow> uint64 \<Rightarrow> string" where
  "quotaXML pre free used =
     ''<'' @ pre @ '':quota-available-bytes>'' @ FormatUint (unat free) @
     ''</'' @ pre @ '':quota-available-bytes><'' @ pre @ '':quota-used-bytes>'' @
     FormatUint (unat used) @ ''</'' @ pre @ '':quota-used-bytes>''"

text \<open>Lines 199 to 203: the prefix bound to \<^verbatim>\<open>DAV:\<close>, or \<^verbatim>\<open>D\<close>.\<close>

definition nsPrefix :: "string \<Rightarrow> string" where
  "nsPrefix bodyStr =
     (let match = FindStringSubmatch_ns bodyStr
      in if length match > 1 then hd (tl match) else ''D'')"

text \<open>Lines 211 to 218: the body with the two elements before the leftmost match.\<close>

definition injectQuota :: "string \<Rightarrow> uint64 \<Rightarrow> uint64 \<Rightarrow> string" where
  "injectQuota bodyStr free used =
     (case FindStringIndex_propEnd bodyStr of
        None \<Rightarrow> bodyStr
      | Some (start, fin) \<Rightarrow>
          take start bodyStr @ quotaXML (nsPrefix bodyStr) free used @ drop start bodyStr)"

text \<open>The one line the middleware logs.\<close>

datatype log_line = UsageWarning os_error

definition quotaMiddleware ::
  "Server \<Rightarrow> Env \<Rightarrow> Handler \<Rightarrow> ResponseWriter \<Rightarrow> Request \<Rightarrow> ResponseWriter \<times> log_line list" where
  "quotaMiddleware s env next w r =
     (if Method r = ''PROPFIND'' \<and> Path r = ''/'' then
        (let rb = ServeHTTP_rb (next r) \<lparr>embedded = w, body = [], code = 200\<rparr>;
             w1 = embedded rb
         in if code rb \<noteq> 207 then (Write (body rb) (WriteHeader (code rb) w1), [])
            else
              (let bodyStr = body rb;
                   (free, used, err) = quotaUsage s env;
                   (bodyBytes, logs) =
                     (case err of
                        None \<Rightarrow> (injectQuota bodyStr free used, [])
                      | Some e \<Rightarrow> (bodyStr, [UsageWarning e]));
                   w2 = w1\<lparr>header :=
                          Header_Set ''Content-Length'' (FormatUint (length bodyBytes)) (header w1)\<rparr>;
                   w3 = (if Header_Get ''Content-Type'' (header w2) = []
                         then w2\<lparr>header :=
                                Header_Set ''Content-Type'' ''text/xml; charset=utf-8'' (header w2)\<rparr>
                         else w2)
               in (Write bodyBytes (WriteHeader (code rb) w3), logs)))
      else (ServeHTTP (next r) w, []))"

text \<open>What the buffer holds after the inner handler has run on it (lines 146 to 153).\<close>

definition captured :: "Handler \<Rightarrow> ResponseWriter \<Rightarrow> Request \<Rightarrow> responseBuffer" where
  "captured next w r = ServeHTTP_rb (next r) \<lparr>embedded = w, body = [], code = 200\<rparr>"

subsection \<open>Sample inputs\<close>

text \<open>A listing as the WebDAV handler writes it, the handler that writes it, and a fresh writer.\<close>

definition ex_body :: string where
  \<open>ex_body = ''<D:multistatus xmlns:D="DAV:"><D:response><D:propstat><D:prop></D:prop></D:propstat></D:response></D:multistatus>''\<close>

definition ex_next :: Handler where
  "ex_next r = [SetHeader ''Dav'' ''1, 2'', CallWriteHeader 207, CallWrite ex_body]"

definition ex_w :: ResponseWriter where
  "ex_w = \<lparr>header = Map.empty, wire = None, sent = []\<rparr>"

definition ex_propfind :: Request where
  "ex_propfind = \<lparr>Method = ''PROPFIND'', Path = ''/''\<rparr>"

definition ex_srv :: "uint64 \<Rightarrow> Server" where
  "ex_srv q = \<lparr>Addr = '':8080'', DataDir = ''/data'', QuotaBytes = q\<rparr>"

definition ex_env :: "fs_root \<Rightarrow> Env" where
  "ex_env root = \<lparr>Linux = True, Abs = (\<lambda>p. p), Statfs = (\<lambda>p. Inl EIO), Tree = (\<lambda>p. root)\<rparr>"

definition ex_tree :: "int \<Rightarrow> fs_root" where
  "ex_tree n = Present (Dir ''data'' [Dir ''docs'' [File ''a.txt'' Regular (Inr n)] None] None)"

definition ex_notfound :: Handler where
  "ex_notfound r = [CallWriteHeader 404, CallWrite ''Not Found'']"

definition ex_denied :: fs_root where
  "ex_denied =
     Present (Dir ''data''
       [File ''a'' Regular (Inr 5), Dir ''private'' [] (Some EACCES), File ''z'' Regular (Inr 7)]
       None)"


subsection \<open>Notions used in the statements\<close>

text \<open>
  The header map the middleware sends with a listing of \<open>n\<close> bytes, given the map \<open>h\<close>
  the handler left: \<^verbatim>\<open>Content-Length\<close> is \<open>n\<close> in decimal, and \<^verbatim>\<open>Content-Type\<close> gets
  the default when \<^verbatim>\<open>Get\<close> finds none.
\<close>

definition final_header :: "Header \<Rightarrow> nat \<Rightarrow> Header" where
  "final_header h n =
     (let h1 = Header_Set ''Content-Length'' (FormatUint n) h
      in if Header_Get ''Content-Type'' h1 = []
         then Header_Set ''Content-Type'' ''text/xml; charset=utf-8'' h1 else h1)"

text \<open>The number a string of decimal digits stands for.\<close>

definition decimal_value :: "string \<Rightarrow> nat" where
  "decimal_value ds = foldl (\<lambda>a c. 10 * a + (of_char c - 48)) 0 ds"


definition ex_typed :: Handler where
  "ex_typed r =
     [SetHeader ''Content-Type'' ''application/xml'', CallWriteHeader 207, CallWrite ex_body]"

text \<open>
  The two scans of the body, said without regular expressions. \<open>dav_decl t\<close> is the prefix
  \<open>p\<close> when \<open>t\<close> begins with \<^verbatim>\<open>xmlns:p="DAV:"\<close>, for \<open>p\<close> a non-empty run of letters,
  digits and underscores. \<open>close_prop t\<close> says that \<open>t\<close> begins with a closing tag
  \<^verbatim>\<open></N>\<close> whose name \<open>N\<close>, a run of letters, digits, underscores and colons, ends in
  \<^verbatim>\<open>prop\<close>. \<open>first_decl\<close> and \<open>first_close_prop\<close> look for the leftmost position.
\<close>

definition dav_decl :: "string \<Rightarrow> string option" where
  \<open>dav_decl t =
     (if prefix ''xmlns:'' t then
        (let r = drop (length ''xmlns:'') t; p = takeWhile word_class r
         in if p \<noteq> [] \<and> prefix ''="DAV:"'' (dropWhile word_class r) then Some p else None)
      else None)\<close>

definition close_prop :: "string \<Rightarrow> bool" where
  "close_prop t =
     (prefix ''</'' t \<and>
      (let r = drop (length ''</'') t
       in suffix ''prop'' (takeWhile tag_class r) \<and> prefix ''>'' (dropWhile tag_class r)))"

fun first_decl :: "string \<Rightarrow> string option" where
  "first_decl [] = None"
| "first_decl (x # xs) = (case dav_decl (x # xs) of Some p \<Rightarrow> Some p | None \<Rightarrow> first_decl xs)"

fun first_close_prop :: "string \<Rightarrow> nat option" where
  "first_close_prop [] = None"
| "first_close_prop (x # xs) =
     (if close_prop (x # xs) then Some 0 else map_option Suc (first_close_prop xs))"

text \<open>
  A closing tag of XML whose local name ends in \<^verbatim>\<open>prop\<close>, whatever its prefix: names may
  also hold hyphens and dots.
\<close>

definition xml_name_char :: "char \<Rightarrow> bool" where
  "xml_name_char c = (tag_class c \<or> c = CHR ''-'' \<or> c = CHR ''.'')"

definition xml_close_prop :: "string \<Rightarrow> bool" where
  "xml_close_prop t =
     (prefix ''</'' t \<and>
      (let r = drop (length ''</'') t
       in suffix ''prop'' (takeWhile xml_name_char r) \<and> prefix ''>'' (dropWhile xml_name_char r)))"

fun first_xml_close_prop :: "string \<Rightarrow> nat option" where
  "first_xml_close_prop [] = None"
| "first_xml_close_prop (x # xs) =
     (if xml_close_prop (x # xs) then Some 0 else map_option Suc (first_xml_close_prop xs))"

definition ex_body_x :: string where
  \<open>ex_body_x = ''<x:multistatus xmlns:x="DAV:"><x:response><x:propstat><x:prop></x:prop></x:propstat></x:response></x:multistatus>''\<close>

definition ex_body_plain :: string where
  \<open>ex_body_plain = ''<multistatus xmlns="DAV:"><response><propstat><prop></prop></propstat></response></multistatus>''\<close>

definition ex_body_hyphen :: string where
  \<open>ex_body_hyphen = ''<a-b:multistatus xmlns:a-b="DAV:"><a-b:response><a-b:propstat><a-b:prop></a-b:prop></a-b:propstat></a-b:response></a-b:multistatus>''\<close>

section \<open>The user store\<close>

subsection \<open>Go values\<close>

text \<open>A call either returns or panics at run time.\<close>

datatype 'a run = Returns 'a | Panics

text \<open>
  \<^verbatim>\<open>map[string]*User\<close>: the map itself may be \<^verbatim>\<open>nil\<close> (\<open>None\<close>), and so may each pointer
  it holds. Reading and deleting treat a nil map as an empty one; assigning to an entry of
  a nil map panics.
\<close>

record User =
  Username :: string
  PasswordHash :: string

type_synonym UserMap = "(string, User option) fmap option"

definition map_index :: "UserMap \<Rightarrow> string \<Rightarrow> User option option" where
  "map_index m k = (case m of None \<Rightarrow> None | Some f \<Rightarrow> fmlookup f k)"

definition map_delete :: "string \<Rightarrow> UserMap \<Rightarrow> UserMap" where
  "map_delete k m = map_option (fmdrop k) m"

definition map_assign :: "string \<Rightarrow> User option \<Rightarrow> UserMap \<Rightarrow> UserMap run" where
  "map_assign k v m = (case m of None \<Rightarrow> Panics | Some f \<Rightarrow> Returns (Some (fmupd k v f)))"

record Store =
  filePath :: string
  Users :: UserMap

subsection \<open>The bcrypt package\<close>

text \<open>
  \<^verbatim>\<open>golang.org/x/crypto/bcrypt\<close> is not part of the repository; the store is given its two
  functions. \<^verbatim>\<open>GenerateFromPassword\<close> draws a salt: the function given here is the one
  run of it that the call makes.
\<close>

datatype bcrypt_error = ErrPasswordTooLong | ErrMismatchedHashAndPassword | ErrHashTooShort

record Bcrypt =
  GenerateFromPassword :: "string \<Rightarrow> nat \<Rightarrow> bcrypt_error + string"
  CompareHashAndPassword :: "string \<Rightarrow> string \<Rightarrow> bcrypt_error option"

definition DefaultCost :: nat where
  "DefaultCost = 10"

subsection \<open>\<^verbatim>\<open>Add\<close>, \<^verbatim>\<open>Delete\<close>, \<^verbatim>\<open>Authenticate\<close>\<close>

datatype add_error = ErrUserExists string | ErrHash bcrypt_error

text \<open>
  \<^verbatim>\<open>Add\<close> returns the error and mutates the store in place: the model returns both the
  store after the call and the error.
\<close>

definition Add :: "Bcrypt \<Rightarrow> Store \<Rightarrow> string \<Rightarrow> string \<Rightarrow> (Store \<times> add_error option) run" where
  "Add B s username password =
     (case map_index (Users s) username of
        Some u \<Rightarrow> Returns (s, Some (ErrUserExists username))
      | None \<Rightarrow>
          (case GenerateFromPassword B password DefaultCost of
             Inl err \<Rightarrow> Returns (s, Some (ErrHash err))
           | Inr hash \<Rightarrow>
               (case map_assign username
                       (Some \<lparr>Username = username, PasswordHash = hash\<rparr>) (Users s) of
                  Panics \<Rightarrow> Panics
                | Returns m \<Rightarrow> Returns (s\<lparr>Users := m\<rparr>, None))))"

definition Delete :: "Store \<Rightarrow> string \<Rightarrow> Store" where
  "Delete s username = s\<lparr>Users := map_delete username (Users s)\<rparr>"

text \<open>An entry that holds a nil pointer makes \<^verbatim>\<open>u.PasswordHash\<close> panic.\<close>

definition Authenticate :: "Bcrypt \<Rightarrow> Store \<Rightarrow> string \<Rightarrow> string \<Rightarrow> bool run" where
  "Authenticate B s username password =
     (case map_index (Users s) username of
        None \<Rightarrow> Returns False
      | Some None \<Rightarrow> Panics
      | Some (Some u) \<Rightarrow>
          Returns (CompareHashAndPassword B (PasswordHash u) password = None))"

text \<open>The store \<^verbatim>\<open>NewStore\<close> starts from, before it loads the file.\<close>

definition emptyStore :: "string \<Rightarrow> Store" where
  "emptyStore path = \<lparr>filePath = path, Users = Some fmempty\<rparr>"

text \<open>
  The invariant of C10: every key of the map holds a record, not a nil pointer, whose
  \<^verbatim>\<open>Username\<close> is the key.
\<close>

definition store_inv :: "Store \<Rightarrow> bool" where
  "store_inv s =
     (\<forall>k. case map_index (Users s) k of
             None \<Rightarrow> True
           | Some None \<Rightarrow> False
           | Some (Some u) \<Rightarrow> Username u = k)"

subsection \<open>An idealised bcrypt\<close>

text \<open>
  The Blowfish key schedule of bcrypt reads 72 key bytes, cycling through the password and
  a closing NUL byte. In this stand-in the digest is those 72 bytes themselves, after the
  version, the cost and the salt: two passwords have the same hash under one salt exactly
  when their key bytes agree. As in the package, generation refuses a password longer than
  72 bytes and comparison does not look at the length.
\<close>

definition bcrypt_key :: "string \<Rightarrow> string" where
  "bcrypt_key password = take 72 (concat (replicate 72 (password @ [CHR 0x00])))"

text \<open>
  What the store relies on from the package, for any of its runs: generation refuses a
  password longer than 72 bytes and succeeds on any other; comparison accepts a password
  against a generated hash exactly when its key bytes are those of the password hashed
  (that distinct key bytes give distinct digests is the idealisation).
\<close>

definition bcrypt_spec :: "Bcrypt \<Rightarrow> bool" where
  "bcrypt_spec B =
     (\<forall>p c. if length p > 72 then GenerateFromPassword B p c = Inl ErrPasswordTooLong
            else \<exists>h. GenerateFromPassword B p c = Inr h \<and>
                   (\<forall>q. (CompareHashAndPassword B h q = None) = (bcrypt_key q = bcrypt_key p)))"

definition ideal_bcrypt :: "string \<Rightarrow> Bcrypt" where
  "ideal_bcrypt salt =
     \<lparr>GenerateFromPassword =
        (\<lambda>password cost.
           if length password > 72 then Inl ErrPasswordTooLong
           else Inr (''$2a$'' @ FormatUint cost @ ''$'' @ salt @ ''$'' @ bcrypt_key password)),
      CompareHashAndPassword =
        (\<lambda>hash password.
           if length hash < 72 then Some ErrHashTooShort
           else if drop (length hash - 72) hash = bcrypt_key password then None
           else Some ErrMismatchedHashAndPassword)\<rparr>"

text \<open>A store whose map is nil, as \<^verbatim>\<open>load\<close> leaves it after a file that holds \<^verbatim>\<open>null\<close>.\<close>

definition ex_store_nil :: Store where
  "ex_store_nil = \<lparr>filePath = ''users.json'', Users = None\<rparr>"

definition ex_store :: Store where
  "ex_store =
     \<lparr>filePath = ''users.json'',
      Users = Some (fmupd ''alice'' (Some \<lparr>Username = ''alice'', PasswordHash = ''$2a$10$h''\<rparr>)
                fmempty)\<rparr>"

section \<open>Saving and loading the store\<close>

subsection \<open>UTF-8, as package \<^verbatim>\<open>unicode/utf8\<close> has it\<close>

definition RuneError :: nat where
  "RuneError = 0xFFFD"

text \<open>
  \<^verbatim>\<open>utf8.DecodeRune\<close>: the code point at the start of the bytes and its width; an invalid
  or cut-off encoding is \<open>(RuneError, 1)\<close>. The second byte has a narrower range after
  the lead bytes \<^verbatim>\<open>E0\<close>, \<^verbatim>\<open>ED\<close>, \<^verbatim>\<open>F0\<close> and \<^verbatim>\<open>F4\<close>.
\<close>

definition accept_lo :: "nat \<Rightarrow> nat" where
  "accept_lo p0 = (if p0 = 0xE0 then 0xA0 else if p0 = 0xF0 then 0x90 else 0x80)"

definition accept_hi :: "nat \<Rightarrow> nat" where
  "accept_hi p0 = (if p0 = 0xED then 0x9F else if p0 = 0xF4 then 0x8F else 0xBF)"

definition continuation :: "nat \<Rightarrow> bool" where
  "continuation b = (0x80 \<le> b \<and> b \<le> 0xBF)"

definition DecodeRune :: "string \<Rightarrow> nat \<times> nat" where
  "DecodeRune p =
     (case p of
        [] \<Rightarrow> (RuneError, 0)
      | c0 # r0 \<Rightarrow>
          (let p0 = of_char c0 :: nat in
           if p0 < 0x80 then (p0, 1)
           else if p0 < 0xC2 \<or> 0xF4 < p0 then (RuneError, 1)
           else
             (case r0 of
                [] \<Rightarrow> (RuneError, 1)
              | c1 # r1 \<Rightarrow>
                  (let b1 = of_char c1 :: nat in
                   if b1 < accept_lo p0 \<or> accept_hi p0 < b1 then (RuneError, 1)
                   else if p0 < 0xE0 then ((p0 mod 32) * 64 + b1 mod 64, 2)
                   else
                     (case r1 of
                        [] \<Rightarrow> (RuneError, 1)
                      | c2 # r2 \<Rightarrow>
                          (let b2 = of_char c2 :: nat in
                           if \<not> continuation b2 then (RuneError, 1)
                           else if p0 < 0xF0
                           then ((p0 mod 16) * 4096 + (b1 mod 64) * 64 + b2 mod 64, 3)
                           else
                             (case r2 of
                                [] \<Rightarrow> (RuneError, 1)
                              | c3 # r3 \<Rightarrow>
                                  (let b3 = of_char c3 :: nat in
                                   if \<not> continuation b3 then (RuneError, 1)
                                   else ((p0 mod 8) * 262144 + (b1 mod 64) * 4096 +
                                         (b2 mod 64) * 64 + b3 mod 64, 4)))))))))"

text \<open>\<^verbatim>\<open>utf8.EncodeRune\<close>; surrogates and values past \<^verbatim>\<open>U+10FFFF\<close> become \<^verbatim>\<open>U+FFFD\<close>.\<close>

definition EncodeRune :: "nat \<Rightarrow> string" where
  "EncodeRune r =
     (if r \<le> 0x7F then [char_of r]
      else if r \<le> 0x7FF then [char_of (0xC0 + r div 64), char_of (0x80 + r mod 64)]
      else if 0x10FFFF < r \<or> (0xD800 \<le> r \<and> r \<le> 0xDFFF)
      then [CHR 0xEF, CHR 0xBF, CHR 0xBD]
      else if r \<le> 0xFFFF
      then [char_of (0xE0 + r div 4096), char_of (0x80 + (r div 64) mod 64),
            char_of (0x80 + r mod 64)]
      else [char_of (0xF0 + r div 262144), char_of (0x80 + (r div 4096) mod 64),
            char_of (0x80 + (r div 64) mod 64), char_of (0x80 + r mod 64)])"

subsection \<open>\<^verbatim>\<open>json.MarshalIndent\<close> on the map of users\<close>












subsection \<open>\<^verbatim>\<open>json.Unmarshal\<close> into the map of users\<close>

text \<open>
  The decoder is modelled on the documents made of objects, strings, \<^verbatim>\<open>null\<close>, \<^verbatim>\<open>true\<close>
  and \<^verbatim>\<open>false\<close>, at the depth the map of users has. A document with a number, an array or
  a deeper object is answered \<open>Unmodelled\<close>. \<^verbatim>\<open>NewStore\<close> treats every error of the
  decoder alike, so which of the two errors a bad document gets is not kept apart with
  care.
\<close>

datatype json_error = SyntaxError | UnmarshalTypeError | Unmodelled

definition hexval :: "char \<Rightarrow> nat option" where
  "hexval c =
     (let b = of_char c :: nat
      in if 48 \<le> b \<and> b \<le> 57 then Some (b - 48)
         else if 97 \<le> b \<and> b \<le> 102 then Some (b - 87)
         else if 65 \<le> b \<and> b \<le> 70 then Some (b - 55)
         else None)"

text \<open>\<^verbatim>\<open>getu4\<close>, on the four characters after \<^verbatim>\<open>\u\<close>.\<close>

fun getu4 :: "string \<Rightarrow> nat option" where
  "getu4 (a # b # c # d # cs) =
     (case (hexval a, hexval b, hexval c, hexval d) of
        (Some x, Some y, Some z, Some w) \<Rightarrow> Some (((x * 16 + y) * 16 + z) * 16 + w)
      | _ \<Rightarrow> None)"
| "getu4 _ = None"

text \<open>The characters the scanner accepts behind a backslash, besides \<^verbatim>\<open>u\<close>.\<close>

definition simple_escape :: "char \<Rightarrow> bool" where
  "simple_escape e =
     (e = CHR 0x22 \<or> e = CHR 0x5C \<or> e = CHR ''/'' \<or> e = CHR ''b'' \<or> e = CHR ''f'' \<or>
      e = CHR ''n'' \<or> e = CHR ''r'' \<or> e = CHR ''t'')"

text \<open>
  \<^verbatim>\<open>unquote\<close>, on the literal between the quotes: escapes are resolved, a pair of
  surrogate escapes becomes one code point and a lone one \<^verbatim>\<open>U+FFFD\<close>, and bytes that are
  not ASCII are decoded and encoded again, which turns invalid UTF-8 into \<^verbatim>\<open>U+FFFD\<close>.
\<close>

definition unescape :: "char \<Rightarrow> char option" where
  "unescape e =
     (if e = CHR 0x22 \<or> e = CHR 0x5C \<or> e = CHR ''/'' \<or> e = CHR 0x27 then Some e
      else if e = CHR ''b'' then Some (CHR 0x08)
      else if e = CHR ''f'' then Some (CHR 0x0C)
      else if e = CHR ''n'' then Some (CHR 0x0A)
      else if e = CHR ''r'' then Some (CHR 0x0D)
      else if e = CHR ''t'' then Some (CHR 0x09)
      else None)"

definition surrogate :: "nat \<Rightarrow> bool" where
  "surrogate r = (0xD800 \<le> r \<and> r < 0xE000)"

text \<open>\<^verbatim>\<open>utf16.DecodeRune\<close>.\<close>

definition utf16_DecodeRune :: "nat \<Rightarrow> nat option \<Rightarrow> nat" where
  "utf16_DecodeRune r1 r2 =
     (case r2 of
        None \<Rightarrow> RuneError
      | Some r2 \<Rightarrow>
          if 0xD800 \<le> r1 \<and> r1 < 0xDC00 \<and> 0xDC00 \<le> r2 \<and> r2 < 0xE000
          then (r1 - 0xD800) * 1024 + (r2 - 0xDC00) + 0x10000
          else RuneError)"

text \<open>The code point of a second \<^verbatim>\<open>\uXXXX\<close> at the start of the bytes, if there is one.\<close>

definition second_u4 :: "string \<Rightarrow> nat option" where
  "second_u4 s =
     (case s of
        b # u # hs \<Rightarrow> if b = CHR 0x5C \<and> u = CHR ''u'' then getu4 hs else None
      | _ \<Rightarrow> None)"

function unquote :: "string \<Rightarrow> string option" where
  "unquote [] = Some []"
| "unquote (c # cs) =
     (if c = CHR 0x5C then
        (case cs of
           [] \<Rightarrow> None
         | e # es \<Rightarrow>
             if e = CHR ''u'' then
               (case getu4 es of
                  None \<Rightarrow> None
                | Some rr \<Rightarrow>
                    if surrogate rr then
                      (if utf16_DecodeRune rr (second_u4 (drop 4 es)) \<noteq> RuneError
                       then map_option
                              ((@) (EncodeRune (utf16_DecodeRune rr (second_u4 (drop 4 es)))))
                              (unquote (drop 10 es))
                       else map_option ((@) (EncodeRune RuneError)) (unquote (drop 4 es)))
                    else map_option ((@) (EncodeRune rr)) (unquote (drop 4 es)))
             else
               (case unescape e of
                  None \<Rightarrow> None
                | Some x \<Rightarrow> map_option ((#) x) (unquote es)))
      else if c = CHR 0x22 \<or> (of_char c :: nat) < 0x20 then None
      else if (of_char c :: nat) < 0x80 then map_option ((#) c) (unquote cs)
      else
        (case DecodeRune (c # cs) of
           (rr, n) \<Rightarrow> map_option ((@) (EncodeRune rr)) (unquote (drop n (c # cs)))))"
  by pat_completeness auto
termination
  by (relation "measure length")
     (auto simp: DecodeRune_def Let_def split: if_splits list.splits)

declare unquote.simps(2) [simp del]

text \<open>The tokens of a document.\<close>

datatype token = TLBrace | TRBrace | TColon | TComma | TStr string | TNull | TTrue | TFalse

definition blank :: "char \<Rightarrow> bool" where
  "blank c = (c = CHR '' '' \<or> c = CHR 0x09 \<or> c = CHR 0x0D \<or> c = CHR 0x0A)"

text \<open>
  The scanner reads one byte at a time. It is between tokens, or inside a string literal
  (with the literal read so far), behind a backslash, inside the hex digits of \<^verbatim>\<open>\u\<close>
  (with the number of digits still to come), or inside one of the words \<^verbatim>\<open>null\<close>,
  \<^verbatim>\<open>true\<close>, \<^verbatim>\<open>false\<close> (with the letters still to come). When a literal closes,
  \<^verbatim>\<open>unquote\<close> gives the string.
\<close>

datatype scan_state =
    Between
  | InString string
  | InStringEsc string
  | InStringEscU string nat
  | InWord string token

fun scan :: "scan_state \<Rightarrow> string \<Rightarrow> json_error + token list" where
  "scan st [] = (case st of Between \<Rightarrow> Inr [] | _ \<Rightarrow> Inl SyntaxError)"
| "scan st (c # cs) =
     (case st of
        Between \<Rightarrow>
          if blank c then scan Between cs
          else if c = CHR ''{'' then map_sum id ((#) TLBrace) (scan Between cs)
          else if c = CHR ''}'' then map_sum id ((#) TRBrace) (scan Between cs)
          else if c = CHR '':'' then map_sum id ((#) TColon) (scan Between cs)
          else if c = CHR '','' then map_sum id ((#) TComma) (scan Between cs)
          else if c = CHR 0x22 then scan (InString []) cs
          else if c = CHR ''n'' then scan (InWord ''ull'' TNull) cs
          else if c = CHR ''t'' then scan (InWord ''rue'' TTrue) cs
          else if c = CHR ''f'' then scan (InWord ''alse'' TFalse) cs
          else if c = CHR ''['' \<or> c = CHR '']'' \<or> c = CHR ''-'' \<or>
                  (48 \<le> (of_char c :: nat) \<and> (of_char c :: nat) \<le> 57)
          then Inl Unmodelled
          else Inl SyntaxError
      | InString l \<Rightarrow>
          if c = CHR 0x22 then
            (case unquote l of
               None \<Rightarrow> Inl SyntaxError
             | Some s \<Rightarrow> map_sum id ((#) (TStr s)) (scan Between cs))
          else if c = CHR 0x5C then scan (InStringEsc (l @ [c])) cs
          else if (of_char c :: nat) < 0x20 then Inl SyntaxError
          else scan (InString (l @ [c])) cs
      | InStringEsc l \<Rightarrow>
          if simple_escape c then scan (InString (l @ [c])) cs
          else if c = CHR ''u'' then scan (InStringEscU (l @ [c]) 4) cs
          else Inl SyntaxError
      | InStringEscU l n \<Rightarrow>
          if hexval c = None then Inl SyntaxError
          else if n \<le> 1 then scan (InString (l @ [c])) cs
          else scan (InStringEscU (l @ [c]) (n - 1)) cs
      | InWord w t \<Rightarrow>
          (case w of
             [] \<Rightarrow> Inl SyntaxError
           | x # xs \<Rightarrow>
               if c \<noteq> x then Inl SyntaxError
               else if xs = [] then map_sum id ((#) t) (scan Between cs)
               else scan (InWord xs t) cs))"












subsection \<open>Files\<close>




subsection \<open>\<^verbatim>\<open>Save\<close>, \<^verbatim>\<open>load\<close>, \<^verbatim>\<open>NewStore\<close>\<close>







subsection \<open>Notions used in the statements about saving and loading\<close>














section \<open>The directory walk\<close>






section \<open>The quota middleware\<close>

text \<open>The keys of the middleware and of the sample handlers are canonical.\<close>

lemma canonical_keys [simp]:
  "CanonicalMIMEHeaderKey ''Content-Length'' = ''Content-Length''"
  "CanonicalMIMEHeaderKey ''Content-Type'' = ''Content-Type''"
  "CanonicalMIMEHeaderKey ''Dav'' = ''Dav''"
  by code_simp+

lemma apply_call_rb_wire [simp]:
  "wire (embedded (apply_call_rb c rb)) = wire (embedded rb)"
  "sent (embedded (apply_call_rb c rb)) = sent (embedded rb)"
  by (cases c; simp)+

lemma ServeHTTP_rb_wire:
  "wire (embedded (ServeHTTP_rb cs rb)) = wire (embedded rb)"
  "sent (embedded (ServeHTTP_rb cs rb)) = sent (embedded rb)"
  unfolding ServeHTTP_rb_def by (induction cs arbitrary: rb; simp)+

lemma captured_wire [simp]:
  "wire (embedded (captured next w r)) = wire w"
  "sent (embedded (captured next w r)) = sent w"
  by (simp_all add: captured_def ServeHTTP_rb_wire)

text \<open>The body a handler writes is the same on the buffer and on the writer itself.\<close>

lemma sent_apply_call:
  "sent (apply_call c w) = sent w @ (case c of CallWrite b \<Rightarrow> b | _ \<Rightarrow> [])"
  by (cases c) (simp_all add: Write_def WriteHeader_def Let_def split: option.splits)

lemma body_apply_call_rb:
  "body (apply_call_rb c rb) = body rb @ (case c of CallWrite b \<Rightarrow> b | _ \<Rightarrow> [])"
  by (cases c) simp_all

lemma sent_ServeHTTP:
  "sent (ServeHTTP cs w) =
     sent w @ concat (map (\<lambda>c. case c of CallWrite b \<Rightarrow> b | _ \<Rightarrow> []) cs)"
  unfolding ServeHTTP_def
  by (induction cs arbitrary: w) (simp_all add: sent_apply_call)

lemma body_ServeHTTP_rb:
  "body (ServeHTTP_rb cs rb) =
     body rb @ concat (map (\<lambda>c. case c of CallWrite b \<Rightarrow> b | _ \<Rightarrow> []) cs)"
  unfolding ServeHTTP_rb_def
  by (induction cs arbitrary: rb) (simp_all add: body_apply_call_rb)

lemma body_captured: "sent w = [] \<Longrightarrow> body (captured next w r) = sent (ServeHTTP (next r) w)"
  by (simp add: captured_def sent_ServeHTTP body_ServeHTTP_rb)

lemma Write_fresh:
  "wire w = None \<Longrightarrow> sent w = [] \<Longrightarrow>
   Write b (WriteHeader c w) = w\<lparr>wire := Some (c, header w), sent := b\<rparr>"
  by (simp add: Write_def WriteHeader_def Let_def)

lemma mw_multistatus_eq:
  assumes "Method r = ''PROPFIND''" "Path r = ''/''" "code (captured next w r) = 207"
    and "quotaUsage s env = (free, used, err)"
    and "served = (case err of None \<Rightarrow> injectQuota (body (captured next w r)) free used
                      | Some e \<Rightarrow> body (captured next w r))"
  shows "quotaMiddleware s env next w r =
           (Write served (WriteHeader 207
              ((embedded (captured next w r))
                 \<lparr>header := final_header (header (embedded (captured next w r))) (length served)\<rparr>)),
            case err of None \<Rightarrow> [] | Some e \<Rightarrow> [UsageWarning e])"
proof (cases err)
  case None
  then show ?thesis
    using assms
    by (simp add: quotaMiddleware_def captured_def[symmetric] Let_def final_header_def)
next
  case (Some e)
  then show ?thesis
    using assms
    by (simp add: quotaMiddleware_def captured_def[symmetric] Let_def final_header_def)
qed

lemma mw_multistatus:
  assumes "Method r = ''PROPFIND''" "Path r = ''/''" "code (captured next w r) = 207"
    and "wire w = None" "sent w = []" and "quotaUsage s env = (free, used, err)"
  shows "sent (fst (quotaMiddleware s env next w r)) =
           (case err of None \<Rightarrow> injectQuota (body (captured next w r)) free used
                      | Some e \<Rightarrow> body (captured next w r))"
    and "snd (quotaMiddleware s env next w r) =
           (case err of None \<Rightarrow> [] | Some e \<Rightarrow> [UsageWarning e])"
    and "wire (fst (quotaMiddleware s env next w r)) =
           Some (207, final_header (header (embedded (captured next w r)))
                        (length (sent (fst (quotaMiddleware s env next w r)))))"
  using assms(4,5)
  by (simp_all add: mw_multistatus_eq[OF assms(1,2,3,6) refl] Write_fresh)

lemma quotaUsage_quota:
  assumes "0 < QuotaBytes s" and "getDirUsedBytes (Tree env (DataDir s)) = (d, None)"
  shows "quotaUsage s env = (QuotaBytes s - min d (QuotaBytes s), min d (QuotaBytes s), None)"
  using assms by (auto simp: quotaUsage_def Let_def min_def)

lemma ex_request: "Method ex_propfind = ''PROPFIND''" "Path ex_propfind = ''/''"
  by (simp_all add: ex_propfind_def)

lemma ex_fresh: "wire ex_w = None" "sent ex_w = []"
  by (simp_all add: ex_w_def)

lemma ex_captured:
  "code (captured ex_next ex_w ex_propfind) = 207"
  "body (captured ex_next ex_w ex_propfind) = ex_body"
  "header (embedded (captured ex_next ex_w ex_propfind)) = [''Dav'' \<mapsto> [''1, 2'']]"
  by (simp_all add: captured_def ServeHTTP_rb_def ex_next_def ex_w_def Header_Set_def)

lemma ex_tree_used: "getDirUsedBytes (Tree (ex_env (ex_tree n)) p) = (word_of_int n, None)"
  by (simp add: ex_env_def ex_tree_def getDirUsedBytes_def WalkDir_def)

text \<open>
  C1. On a root PROPFIND whose captured status is 207, with a quota configured and a
  directory-usage computation that succeeds with \<open>d\<close>, the figures put into the body are
  \<open>used = min d quota\<close> and \<open>free = quota - used\<close>, and the subtraction does not wrap:
  as numbers, \<open>free\<close> is the quota minus \<open>used\<close>, so it is not negative.
\<close>

theorem quota_clamp:
  assumes "Method r = ''PROPFIND''" and "Path r = ''/''" and "code (captured next w r) = 207"
    and "wire w = None" and "sent w = []"
    and "0 < QuotaBytes s" and "getDirUsedBytes (Tree env (DataDir s)) = (d, None)"
  shows "\<exists>free used.
           quotaUsage s env = (free, used, None) \<and>
           sent (fst (quotaMiddleware s env next w r)) =
             injectQuota (body (captured next w r)) free used \<and>
           used = min d (QuotaBytes s) \<and> free = QuotaBytes s - used \<and>
           int (unat free) = int (unat (QuotaBytes s)) - int (unat used)"
proof -
  let ?used = "min d (QuotaBytes s)"
  let ?free = "QuotaBytes s - ?used"
  have q: "quotaUsage s env = (?free, ?used, None)"
    using assms(6,7) by (rule quotaUsage_quota)
  have le: "?used \<le> QuotaBytes s" by simp
  then have "unat ?free = unat (QuotaBytes s) - unat ?used"
    by (simp add: unat_sub)
  moreover have "unat ?used \<le> unat (QuotaBytes s)"
    using le by (simp add: word_le_nat_alt)
  ultimately have nowrap: "int (unat ?free) = int (unat (QuotaBytes s)) - int (unat ?used)"
    by simp
  show ?thesis
    using q nowrap mw_multistatus(1)[OF assms(1-5) q] by simp
qed

theorem quota_clamp_witness:
  "quotaUsage (ex_srv 10) (ex_env (ex_tree 15)) = (0, 10, None) \<and>
   quotaUsage (ex_srv 10) (ex_env (ex_tree 4)) = (6, 4, None) \<and>
   sent (fst (quotaMiddleware (ex_srv 10) (ex_env (ex_tree 15)) ex_next ex_w ex_propfind)) =
     injectQuota ex_body 0 10 \<and>
   sent (fst (quotaMiddleware (ex_srv 10) (ex_env (ex_tree 4)) ex_next ex_w ex_propfind)) =
     injectQuota ex_body 6 4"
proof -
  have q: "0 < QuotaBytes (ex_srv 10)"
    by (simp add: ex_srv_def)
  have d15: "getDirUsedBytes (Tree (ex_env (ex_tree 15)) (DataDir (ex_srv 10))) = (15, None)"
    using ex_tree_used[of 15] by simp
  have d4: "getDirUsedBytes (Tree (ex_env (ex_tree 4)) (DataDir (ex_srv 10))) = (4, None)"
    using ex_tree_used[of 4] by simp
  have m: "min (15 :: uint64) 10 = 10" "min (4 :: uint64) 10 = 4" "QuotaBytes (ex_srv 10) = 10"
    by (simp_all add: ex_srv_def)
  from quota_clamp[OF ex_request ex_captured(1) ex_fresh q d15]
    quota_clamp[OF ex_request ex_captured(1) ex_fresh q d4]
  show ?thesis
    by (auto simp: m ex_captured(2))
qed

text \<open>
  C2. When the method is not PROPFIND, or the path is not \<^verbatim>\<open>/\<close>, or the captured status
  is not 207, the middleware logs nothing and the body that goes out is, byte for byte,
  the body the inner handler writes. On a request it does not buffer, the writer is left
  exactly as the inner handler leaves it; on a buffered one, the status that goes out is
  the captured status, with the header map as the handler left it.
\<close>

theorem quota_passthrough:
  assumes "Method r \<noteq> ''PROPFIND'' \<or> Path r \<noteq> ''/'' \<or> code (captured next w r) \<noteq> 207"
    and "wire w = None" and "sent w = []"
  shows "snd (quotaMiddleware s env next w r) = [] \<and>
         sent (fst (quotaMiddleware s env next w r)) = sent (ServeHTTP (next r) w) \<and>
         (if Method r = ''PROPFIND'' \<and> Path r = ''/''
          then wire (fst (quotaMiddleware s env next w r)) =
                 Some (code (captured next w r), header (embedded (captured next w r))) \<and>
               sent (fst (quotaMiddleware s env next w r)) = body (captured next w r)
          else fst (quotaMiddleware s env next w r) = ServeHTTP (next r) w)"
proof (cases "Method r = ''PROPFIND'' \<and> Path r = ''/''")
  case False
  then show ?thesis by (auto simp: quotaMiddleware_def)
next
  case True
  with assms(1) have c: "code (captured next w r) \<noteq> 207" by auto
  have mw: "quotaMiddleware s env next w r =
      (Write (body (captured next w r))
         (WriteHeader (code (captured next w r)) (embedded (captured next w r))), [])"
    using True c by (simp add: quotaMiddleware_def captured_def[symmetric] Let_def)
  show ?thesis
    using True assms(2,3) body_captured[OF assms(3), of "next" r]
    by (simp add: mw Write_def WriteHeader_def Let_def)
qed

theorem quota_passthrough_witness:
  "fst (quotaMiddleware (ex_srv 10) (ex_env (ex_tree 4)) ex_next ex_w
          \<lparr>Method = ''GET'', Path = ''/''\<rparr>) =
     ServeHTTP (ex_next \<lparr>Method = ''GET'', Path = ''/''\<rparr>) ex_w \<and>
   fst (quotaMiddleware (ex_srv 10) (ex_env (ex_tree 4)) ex_next ex_w
          \<lparr>Method = ''PROPFIND'', Path = ''/docs''\<rparr>) =
     ServeHTTP (ex_next \<lparr>Method = ''PROPFIND'', Path = ''/docs''\<rparr>) ex_w \<and>
   wire (fst (quotaMiddleware (ex_srv 10) (ex_env (ex_tree 4)) ex_notfound ex_w ex_propfind)) =
     Some (404, Map.empty) \<and>
   sent (fst (quotaMiddleware (ex_srv 10) (ex_env (ex_tree 4)) ex_notfound ex_w ex_propfind)) =
     ''Not Found''"
proof -
  have nf: "code (captured ex_notfound ex_w ex_propfind) = 404"
    "body (captured ex_notfound ex_w ex_propfind) = ''Not Found''"
    "header (embedded (captured ex_notfound ex_w ex_propfind)) = Map.empty"
    by (simp_all add: captured_def ServeHTTP_rb_def ex_notfound_def ex_w_def)
  have a: "Method \<lparr>Method = ''GET'', Path = ''/''\<rparr> \<noteq> ''PROPFIND'' \<or>
           Path \<lparr>Method = ''GET'', Path = ''/''\<rparr> \<noteq> ''/'' \<or>
           code (captured ex_next ex_w \<lparr>Method = ''GET'', Path = ''/''\<rparr>) \<noteq> 207"
    by simp
  have b: "Method \<lparr>Method = ''PROPFIND'', Path = ''/docs''\<rparr> \<noteq> ''PROPFIND'' \<or>
           Path \<lparr>Method = ''PROPFIND'', Path = ''/docs''\<rparr> \<noteq> ''/'' \<or>
           code (captured ex_next ex_w \<lparr>Method = ''PROPFIND'', Path = ''/docs''\<rparr>) \<noteq> 207"
    by simp
  have c: "Method ex_propfind \<noteq> ''PROPFIND'' \<or> Path ex_propfind \<noteq> ''/'' \<or>
           code (captured ex_notfound ex_w ex_propfind) \<noteq> 207"
    by (simp add: nf)
  have t: "(''PROPFIND'' = ''PROPFIND'' \<and> ''/'' = ''/'') = True"
    by simp
  have "fst (quotaMiddleware (ex_srv 10) (ex_env (ex_tree 4)) ex_next ex_w
               \<lparr>Method = ''GET'', Path = ''/''\<rparr>) =
          ServeHTTP (ex_next \<lparr>Method = ''GET'', Path = ''/''\<rparr>) ex_w"
    using quota_passthrough[OF a ex_fresh, of "ex_srv 10" "ex_env (ex_tree 4)"] by simp
  moreover have "fst (quotaMiddleware (ex_srv 10) (ex_env (ex_tree 4)) ex_next ex_w
               \<lparr>Method = ''PROPFIND'', Path = ''/docs''\<rparr>) =
          ServeHTTP (ex_next \<lparr>Method = ''PROPFIND'', Path = ''/docs''\<rparr>) ex_w"
    using quota_passthrough[OF b ex_fresh, of "ex_srv 10" "ex_env (ex_tree 4)"] by simp
  moreover have
    "wire (fst (quotaMiddleware (ex_srv 10) (ex_env (ex_tree 4)) ex_notfound ex_w ex_propfind)) =
       Some (code (captured ex_notfound ex_w ex_propfind),
             header (embedded (captured ex_notfound ex_w ex_propfind))) \<and>
     sent (fst (quotaMiddleware (ex_srv 10) (ex_env (ex_tree 4)) ex_notfound ex_w ex_propfind)) =
       body (captured ex_notfound ex_w ex_propfind)"
    using quota_passthrough[OF c ex_fresh, of "ex_srv 10" "ex_env (ex_tree 4)",
        unfolded ex_request t if_True]
    by blast
  ultimately show ?thesis
    by (simp only: nf simp_thms)
qed


lemma decimal_value_snoc: "decimal_value (ds @ [c]) = 10 * decimal_value ds + (of_char c - 48)"
  by (simp add: decimal_value_def)

lemma decimal_value_FormatUint: "decimal_value (FormatUint n) = n"
proof (induction n rule: FormatUint.induct)
  case (1 n)
  show ?case
  proof (cases "n < 10")
    case True
    then show ?thesis
      by (subst FormatUint.simps) (simp add: decimal_value_def)
  next
    case False
    have "n mod 10 < 10" by simp
    then have "(48 + n mod 10) mod 256 = 48 + n mod 10" by simp
    with False 1 show ?thesis
      by (subst FormatUint.simps) (simp add: decimal_value_snoc)
  qed
qed

lemma final_header_length:
  "final_header h n ''Content-Length'' = Some [FormatUint n]"
  by (simp add: final_header_def Header_Set_def Let_def)

lemma Header_Get_Set_other:
  "CanonicalMIMEHeaderKey k \<noteq> CanonicalMIMEHeaderKey k' \<Longrightarrow>
   Header_Get k (Header_Set k' v h) = Header_Get k h"
  by (simp add: Header_Get_def Header_Set_def)

lemma final_header_type:
  "final_header h n ''Content-Type'' =
     (if Header_Get ''Content-Type'' h = [] then Some [''text/xml; charset=utf-8'']
      else h ''Content-Type'')"
  by (simp add: final_header_def Let_def Header_Get_Set_other) (simp add: Header_Set_def)

lemma ex_usage_ok: "quotaUsage (ex_srv 10) (ex_env (ex_tree 15)) = (0, 10, None)"
proof -
  have "0 < QuotaBytes (ex_srv 10)"
    by (simp add: ex_srv_def)
  moreover have "getDirUsedBytes (Tree (ex_env (ex_tree 15)) (DataDir (ex_srv 10))) = (15, None)"
    using ex_tree_used[of 15] by simp
  ultimately show ?thesis
    using quotaUsage_quota[of "ex_srv 10" "ex_env (ex_tree 15)" 15] by (simp add: ex_srv_def)
qed

lemma ex_denied_used: "getDirUsedBytes (Tree (ex_env ex_denied) p) = (5, Some EACCES)"
  by (simp add: ex_env_def ex_denied_def getDirUsedBytes_def WalkDir_def IsNotExist_def)

lemma ex_typed_captured:
  "code (captured ex_typed ex_w ex_propfind) = 207"
  "body (captured ex_typed ex_w ex_propfind) = ex_body"
  "header (embedded (captured ex_typed ex_w ex_propfind)) =
     [''Content-Type'' \<mapsto> [''application/xml'']]"
  by (simp_all add: captured_def ServeHTTP_rb_def ex_typed_def ex_w_def Header_Set_def)

lemma ex_lengths:
  "length (injectQuota ex_body 0 10) = 208"
  "length ex_body = 113"
  "FormatUint 208 = ''208''"
  "FormatUint 113 = ''113''"
  by code_simp+

text \<open>
  C4. On a root PROPFIND whose captured status is 207, whether the body was rewritten or
  not, the headers that go out with the status carry a \<^verbatim>\<open>Content-Length\<close> that is the
  decimal rendering of the exact number of body bytes sent, and a \<^verbatim>\<open>Content-Type\<close> that
  is the default when \<^verbatim>\<open>Get\<close> found none and is left as it was otherwise.
\<close>

theorem content_length_exact:
  assumes "Method r = ''PROPFIND''" and "Path r = ''/''" and "code (captured next w r) = 207"
    and "wire w = None" and "sent w = []"
  shows "\<exists>hdrs len.
           wire (fst (quotaMiddleware s env next w r)) = Some (207, hdrs) \<and>
           hdrs ''Content-Length'' = Some [len] \<and>
           len = FormatUint (length (sent (fst (quotaMiddleware s env next w r)))) \<and>
           decimal_value len = length (sent (fst (quotaMiddleware s env next w r))) \<and>
           hdrs ''Content-Type'' =
             (if Header_Get ''Content-Type'' (header (embedded (captured next w r))) = []
              then Some [''text/xml; charset=utf-8'']
              else header (embedded (captured next w r)) ''Content-Type'')"
proof -
  obtain free used err where q: "quotaUsage s env = (free, used, err)"
    by (cases "quotaUsage s env") auto
  show ?thesis
    by (simp add: mw_multistatus(3)[OF assms q] final_header_length final_header_type
        decimal_value_FormatUint)
qed

theorem content_length_exact_witness:
  "(\<exists>hdrs.
      wire (fst (quotaMiddleware (ex_srv 10) (ex_env (ex_tree 15)) ex_next ex_w ex_propfind)) =
        Some (207, hdrs) \<and>
      hdrs ''Content-Length'' = Some [''208''] \<and>
      hdrs ''Content-Type'' = Some [''text/xml; charset=utf-8'']) \<and>
   length (sent (fst (quotaMiddleware (ex_srv 10) (ex_env (ex_tree 15)) ex_next ex_w ex_propfind))) =
     208 \<and>
   (\<exists>hdrs.
      wire (fst (quotaMiddleware (ex_srv 10) (ex_env ex_denied) ex_typed ex_w ex_propfind)) =
        Some (207, hdrs) \<and>
      hdrs ''Content-Length'' = Some [''113''] \<and>
      hdrs ''Content-Type'' = Some [''application/xml'']) \<and>
   length (sent (fst (quotaMiddleware (ex_srv 10) (ex_env ex_denied) ex_typed ex_w ex_propfind))) =
     113"
proof -
  have s1: "sent (fst (quotaMiddleware (ex_srv 10) (ex_env (ex_tree 15)) ex_next ex_w ex_propfind)) =
           injectQuota ex_body 0 10"
    using mw_multistatus(1)[OF ex_request ex_captured(1) ex_fresh ex_usage_ok]
    by (simp add: ex_captured)
  have "quotaUsage (ex_srv 10) (ex_env ex_denied) = (0, 5, Some EACCES)"
    by (simp add: quotaUsage_def ex_denied_used) (simp add: ex_srv_def)
  then have s2: "sent (fst (quotaMiddleware (ex_srv 10) (ex_env ex_denied) ex_typed ex_w ex_propfind)) =
           ex_body"
    using mw_multistatus(1)[OF ex_request ex_typed_captured(1) ex_fresh]
    by (simp add: ex_typed_captured)
  have g: "Header_Get ''Content-Type'' [''Dav'' \<mapsto> [''1, 2'']] = []"
    "Header_Get ''Content-Type'' [''Content-Type'' \<mapsto> [''application/xml'']] \<noteq> []"
    by (simp_all add: Header_Get_def)
  have a: "\<exists>hdrs.
      wire (fst (quotaMiddleware (ex_srv 10) (ex_env (ex_tree 15)) ex_next ex_w ex_propfind)) =
        Some (207, hdrs) \<and>
      hdrs ''Content-Length'' = Some [''208''] \<and>
      hdrs ''Content-Type'' = Some [''text/xml; charset=utf-8'']"
    using content_length_exact[OF ex_request ex_captured(1) ex_fresh,
        of "ex_srv 10" "ex_env (ex_tree 15)"]
    unfolding s1 ex_lengths ex_captured(3) by (auto simp: g)
  have b: "\<exists>hdrs.
      wire (fst (quotaMiddleware (ex_srv 10) (ex_env ex_denied) ex_typed ex_w ex_propfind)) =
        Some (207, hdrs) \<and>
      hdrs ''Content-Length'' = Some [''113''] \<and>
      hdrs ''Content-Type'' = Some [''application/xml'']"
    using content_length_exact[OF ex_request ex_typed_captured(1) ex_fresh,
        of "ex_srv 10" "ex_env ex_denied"]
    unfolding s2 ex_lengths ex_typed_captured(3) by (auto simp: g)
  show ?thesis
    using a b by (simp add: s1 s2 ex_lengths)
qed

text \<open>
  C6. On a root PROPFIND whose captured status is 207, when the usage provider in use
  (the directory walk under a quota, \<^verbatim>\<open>getDiskUsage\<close> without one) returns an error, the
  middleware logs that error and sends the buffered body as the handler wrote it, with
  status 207.
\<close>

theorem usage_failure_fail_open:
  assumes "Method r = ''PROPFIND''" and "Path r = ''/''" and "code (captured next w r) = 207"
    and "wire w = None" and "sent w = []"
    and "(0 < QuotaBytes s \<and> snd (getDirUsedBytes (Tree env (DataDir s))) = Some e) \<or>
         (QuotaBytes s = 0 \<and>
          snd (snd (getDiskUsage env
            (if Abs env (DataDir s) = [] then DataDir s else Abs env (DataDir s)))) = Some e)"
  shows "snd (quotaMiddleware s env next w r) = [UsageWarning e] \<and>
         sent (fst (quotaMiddleware s env next w r)) = body (captured next w r) \<and>
         sent (fst (quotaMiddleware s env next w r)) = sent (ServeHTTP (next r) w) \<and>
         map_option fst (wire (fst (quotaMiddleware s env next w r))) = Some 207"
proof -
  obtain free used where q: "quotaUsage s env = (free, used, Some e)"
    using assms(6)
    by (cases "getDirUsedBytes (Tree env (DataDir s))";
        cases "getDiskUsage env (if Abs env (DataDir s) = [] then DataDir s else Abs env (DataDir s))")
       (auto simp: quotaUsage_def Let_def word_neq_0_conv[symmetric])
  show ?thesis
    using mw_multistatus[OF assms(1-5) q] body_captured[OF assms(5), of "next" r]
    by simp
qed

theorem usage_failure_fail_open_witness:
  "snd (quotaMiddleware (ex_srv 10) (ex_env ex_denied) ex_next ex_w ex_propfind) =
     [UsageWarning EACCES] \<and>
   sent (fst (quotaMiddleware (ex_srv 10) (ex_env ex_denied) ex_next ex_w ex_propfind)) = ex_body \<and>
   snd (quotaMiddleware (ex_srv 0) (ex_env (ex_tree 4)) ex_next ex_w ex_propfind) =
     [UsageWarning EIO] \<and>
   sent (fst (quotaMiddleware (ex_srv 0) (ex_env (ex_tree 4)) ex_next ex_w ex_propfind)) = ex_body"
proof -
  have a: "(0 < QuotaBytes (ex_srv 10) \<and>
            snd (getDirUsedBytes (Tree (ex_env ex_denied) (DataDir (ex_srv 10)))) = Some EACCES) \<or>
           (QuotaBytes (ex_srv 10) = 0 \<and>
            snd (snd (getDiskUsage (ex_env ex_denied)
              (if Abs (ex_env ex_denied) (DataDir (ex_srv 10)) = [] then DataDir (ex_srv 10)
               else Abs (ex_env ex_denied) (DataDir (ex_srv 10))))) = Some EACCES)"
    by (simp add: ex_denied_used) (simp add: ex_srv_def)
  have b: "(0 < QuotaBytes (ex_srv 0) \<and>
            snd (getDirUsedBytes (Tree (ex_env (ex_tree 4)) (DataDir (ex_srv 0)))) = Some EIO) \<or>
           (QuotaBytes (ex_srv 0) = 0 \<and>
            snd (snd (getDiskUsage (ex_env (ex_tree 4))
              (if Abs (ex_env (ex_tree 4)) (DataDir (ex_srv 0)) = [] then DataDir (ex_srv 0)
               else Abs (ex_env (ex_tree 4)) (DataDir (ex_srv 0))))) = Some EIO)"
    by (simp add: ex_srv_def ex_env_def getDiskUsage_def getDiskUsage_linux_def)
  from usage_failure_fail_open[OF ex_request ex_captured(1) ex_fresh a]
    usage_failure_fail_open[OF ex_request ex_captured(1) ex_fresh b]
  show ?thesis
    unfolding ex_captured(2) by blast
qed


section \<open>The two scans of the body\<close>

text \<open>
  A repetition of a class followed by a literal that begins outside the class never gives
  a character back: the repetition takes the longest run.
\<close>

lemma star_lit_greedy:
  assumes "l \<noteq> []" and "\<not> c (hd l)"
  shows "rx_match [Star c, Lit l] r =
           (if prefix l (dropWhile c r) then Some [takeWhile c r, l] else None)"
proof (induction r)
  case Nil
  then show ?case using assms by simp
next
  case (Cons x xs)
  show ?case
  proof (cases "c x")
    case True
    then have "\<not> prefix l (x # xs)"
      using assms by (cases l) auto
    with True Cons show ?thesis by simp
  next
    case False
    then show ?thesis by simp
  qed
qed

lemma eq_not_word: "\<not> word_class CHR ''=''"
  by (simp add: word_class_def in_range_def)

lemma plus_lit_greedy:
  assumes "l \<noteq> []" and "\<not> c (hd l)"
  shows "rx_match [Plus c, Lit l] r =
           (if takeWhile c r \<noteq> [] \<and> prefix l (dropWhile c r)
            then Some [takeWhile c r, l] else None)"
  using assms by (cases r) (simp_all add: star_lit_greedy[where c=c and l=l])

lemma ns_match:
  \<open>rx_match nsRegex t = map_option (\<lambda>p. [''xmlns:'', p, ''="DAV:"'']) (dav_decl t)\<close>
proof -
  have a: \<open>rx_match nsRegex t =
      (if prefix ''xmlns:'' t
       then map_option (Cons ''xmlns:'') (rx_match [Plus word_class, Lit ''="DAV:"''] (drop (length ''xmlns:'') t))
       else None)\<close>
    by (simp add: nsRegex_def)
  have b: \<open>rx_match [Plus word_class, Lit ''="DAV:"''] r =
           (if takeWhile word_class r \<noteq> [] \<and> prefix ''="DAV:"'' (dropWhile word_class r)
            then Some [takeWhile word_class r, ''="DAV:"''] else None)\<close> for r
    by (rule plus_lit_greedy) (simp_all add: eq_not_word)
  show ?thesis
    unfolding a b dav_decl_def by (simp add: Let_def)
qed

lemma ns_find:
  \<open>rx_find nsRegex s = None \<longleftrightarrow> first_decl s = None\<close>
  \<open>first_decl s = Some p \<Longrightarrow> \<exists>i. rx_find nsRegex s = Some (i, [''xmlns:'', p, ''="DAV:"''])\<close>
proof (induction s)
  case Nil
  {
    case 1
    show ?case by (simp add: ns_match dav_decl_def)
  next
    case 2
    then show ?case by simp
  }
next
  case (Cons x xs)
  {
    case 1
    show ?case using Cons(1) by (simp add: ns_match split: option.splits)
  next
    case 2
    then show ?case using Cons(2) by (auto simp: ns_match split: option.splits)
  }
qed

lemma nsPrefix_spec:
  "nsPrefix b = (case first_decl b of None \<Rightarrow> ''D'' | Some p \<Rightarrow> p)"
proof (cases "first_decl b")
  case None
  then show ?thesis
    using ns_find(1)[of b] by (simp add: nsPrefix_def FindStringSubmatch_ns_def)
next
  case (Some p)
  then show ?thesis
    using ns_find(2)[of b p] by (auto simp: nsPrefix_def FindStringSubmatch_ns_def)
qed

lemma rx_match_length: "rx_match rs s = Some ms \<Longrightarrow> length ms = length rs"
  by (induction rs s arbitrary: ms rule: rx_match.induct)
     (auto split: if_splits option.splits list.splits)

lemma tag_class_prop:
  "tag_class CHR ''p''" "tag_class CHR ''r''" "tag_class CHR ''o''" "\<not> tag_class CHR ''>''"
  by (simp_all add: tag_class_def in_range_def)

lemma prop_here:
  "prefix ''prop>'' (x # xs) \<longleftrightarrow>
     x # takeWhile tag_class xs = ''prop'' \<and> prefix ''>'' (dropWhile tag_class xs)"
proof
  assume "prefix ''prop>'' (x # xs)"
  then obtain rest where "x # xs = ''prop>'' @ rest"
    by (auto simp: prefix_def)
  then show "x # takeWhile tag_class xs = ''prop'' \<and> prefix ''>'' (dropWhile tag_class xs)"
    by (auto simp: tag_class_prop)
next
  assume a: "x # takeWhile tag_class xs = ''prop'' \<and> prefix ''>'' (dropWhile tag_class xs)"
  then obtain rest where "dropWhile tag_class xs = ''>'' @ rest"
    by (auto simp: prefix_def)
  moreover have "xs = takeWhile tag_class xs @ dropWhile tag_class xs"
    by simp
  ultimately have "x # xs = ''prop'' @ ''>'' @ rest"
    using a by (metis append_Cons)
  then show "prefix ''prop>'' (x # xs)"
    by simp
qed

lemma star_prop:
  "rx_match [Star tag_class, Lit ''prop>''] r \<noteq> None \<longleftrightarrow>
     suffix ''prop'' (takeWhile tag_class r) \<and> prefix ''>'' (dropWhile tag_class r)"
proof (induction r)
  case Nil
  then show ?case by simp
next
  case (Cons x xs)
  show ?case
  proof (cases "tag_class x")
    case False
    then have "\<not> prefix ''prop>'' (x # xs)"
      using tag_class_prop(1) by auto
    with False show ?thesis by simp
  next
    case True
    have "rx_match [Star tag_class, Lit ''prop>''] (x # xs) \<noteq> None \<longleftrightarrow>
            rx_match [Star tag_class, Lit ''prop>''] xs \<noteq> None \<or> prefix ''prop>'' (x # xs)"
      using True rx_match_length[of "[Star tag_class, Lit ''prop>'']" xs]
      by (auto split: option.splits list.splits)
    also have "\<dots> \<longleftrightarrow>
        (suffix ''prop'' (takeWhile tag_class xs) \<and> prefix ''>'' (dropWhile tag_class xs)) \<or>
        (x # takeWhile tag_class xs = ''prop'' \<and> prefix ''>'' (dropWhile tag_class xs))"
      unfolding Cons.IH prop_here ..
    also have "\<dots> \<longleftrightarrow>
        suffix ''prop'' (takeWhile tag_class (x # xs)) \<and> prefix ''>'' (dropWhile tag_class (x # xs))"
      using True by (auto simp: suffix_Cons)
    finally show ?thesis .
  qed
qed

lemma propEnd_match: "rx_match propEndRegex t \<noteq> None \<longleftrightarrow> close_prop t"
proof -
  have "rx_match propEndRegex t \<noteq> None \<longleftrightarrow>
          prefix ''</'' t \<and>
          rx_match [Star tag_class, Lit ''prop>''] (drop (length ''</'') t) \<noteq> None"
    by (simp add: propEndRegex_def)
  then show ?thesis
    unfolding star_prop close_prop_def by (simp add: Let_def)
qed

lemma propEnd_find: "map_option fst (rx_find propEndRegex s) = first_close_prop s"
proof (induction s)
  case Nil
  have "\<not> close_prop []" by (simp add: close_prop_def)
  then show ?case using propEnd_match[of "[]"] by simp
next
  case (Cons x xs)
  show ?case
  proof (cases "close_prop (x # xs)")
    case True
    then show ?thesis
      using propEnd_match[of "x # xs"] by auto
  next
    case False
    then have "rx_match propEndRegex (x # xs) = None"
      using propEnd_match[of "x # xs"] by simp
    with False Cons[symmetric] show ?thesis
      by (cases "rx_find propEndRegex xs") auto
  qed
qed

lemma injectQuota_spec:
  "injectQuota b free used =
     (case first_close_prop b of
        None \<Rightarrow> b
      | Some i \<Rightarrow> take i b @ quotaXML (nsPrefix b) free used @ drop i b)"
  using propEnd_find[of b, symmetric]
  by (cases "rx_find propEndRegex b")
     (auto simp: injectQuota_def FindStringIndex_propEnd_def)


text \<open>What the two scans find, said with the strings themselves.\<close>

lemma dav_decl_iff:
  \<open>dav_decl t = Some p \<longleftrightarrow>
     (\<exists>rest. t = ''xmlns:'' @ p @ ''="DAV:"'' @ rest \<and> p \<noteq> [] \<and> list_all word_class p)\<close>
proof
  assume a: "dav_decl t = Some p"
  then have pre: "prefix ''xmlns:'' t"
    by (simp add: dav_decl_def split: if_splits)
  define r where "r = drop (length ''xmlns:'') t"
  have t: "t = ''xmlns:'' @ r"
    using pre unfolding r_def by (auto simp: prefix_def)
  from a pre have p: "p = takeWhile word_class r" "p \<noteq> []"
    and d: \<open>prefix ''="DAV:"'' (dropWhile word_class r)\<close>
    unfolding r_def by (auto simp: dav_decl_def Let_def split: if_splits)
  from d obtain rest where \<open>dropWhile word_class r = ''="DAV:"'' @ rest\<close>
    by (auto simp: prefix_def)
  then have \<open>r = p @ ''="DAV:"'' @ rest\<close>
    using takeWhile_dropWhile_id[of word_class r] p(1) by simp
  moreover have "list_all word_class p"
    unfolding p(1) list_all_iff by (auto dest: set_takeWhileD)
  ultimately show \<open>\<exists>rest. t = ''xmlns:'' @ p @ ''="DAV:"'' @ rest \<and> p \<noteq> [] \<and> list_all word_class p\<close>
    using t p(2) by auto
next
  assume \<open>\<exists>rest. t = ''xmlns:'' @ p @ ''="DAV:"'' @ rest \<and> p \<noteq> [] \<and> list_all word_class p\<close>
  then obtain rest where t: \<open>t = ''xmlns:'' @ p @ ''="DAV:"'' @ rest\<close>
    and p: "p \<noteq> []" "list_all word_class p"
    by auto
  have tw: "takeWhile word_class (p @ CHR ''='' # ys) = p" for ys
    using p(2) by (simp add: takeWhile_append2 list_all_iff eq_not_word)
  have dw: "dropWhile word_class (p @ CHR ''='' # ys) = CHR ''='' # ys" for ys
    using p(2) by (simp add: dropWhile_append2 list_all_iff eq_not_word)
  show "dav_decl t = Some p"
    unfolding dav_decl_def t using p(1) by (simp add: tw dw Let_def)
qed

lemma close_prop_iff:
  "close_prop t \<longleftrightarrow>
     (\<exists>N rest. t = ''</'' @ N @ ''>'' @ rest \<and> list_all tag_class N \<and> suffix ''prop'' N)"
proof
  assume a: "close_prop t"
  define r where "r = drop (length ''</'') t"
  have t: "t = ''</'' @ r"
    using a unfolding r_def by (auto simp: close_prop_def prefix_def)
  from a have s: "suffix ''prop'' (takeWhile tag_class r)"
    and d: "prefix ''>'' (dropWhile tag_class r)"
    unfolding r_def by (auto simp: close_prop_def Let_def)
  from d obtain rest where "dropWhile tag_class r = ''>'' @ rest"
    by (auto simp: prefix_def)
  then have "r = takeWhile tag_class r @ ''>'' @ rest"
    using takeWhile_dropWhile_id[of tag_class r] by simp
  moreover have "list_all tag_class (takeWhile tag_class r)"
    unfolding list_all_iff by (auto dest: set_takeWhileD)
  ultimately show "\<exists>N rest. t = ''</'' @ N @ ''>'' @ rest \<and> list_all tag_class N \<and> suffix ''prop'' N"
    using t s by metis
next
  assume "\<exists>N rest. t = ''</'' @ N @ ''>'' @ rest \<and> list_all tag_class N \<and> suffix ''prop'' N"
  then obtain N rest where t: "t = ''</'' @ N @ ''>'' @ rest"
    and N: "list_all tag_class N" "suffix ''prop'' N"
    by auto
  have tw: "takeWhile tag_class (N @ CHR ''>'' # rest) = N"
    using N(1) by (simp add: takeWhile_append2 list_all_iff tag_class_prop)
  have dw: "dropWhile tag_class (N @ CHR ''>'' # rest) = CHR ''>'' # rest"
    using N(1) by (simp add: dropWhile_append2 list_all_iff tag_class_prop)
  show "close_prop t"
    unfolding close_prop_def t using N(2) by (simp add: tw dw Let_def)
qed

lemma first_close_prop_Some:
  "first_close_prop b = Some i \<Longrightarrow>
     i \<le> length b \<and> close_prop (drop i b) \<and> (\<forall>j<i. \<not> close_prop (drop j b))"
proof (induction b arbitrary: i)
  case Nil
  then show ?case by simp
next
  case (Cons x xs)
  show ?case
  proof (cases "close_prop (x # xs)")
    case True
    with Cons.prems show ?thesis by simp
  next
    case False
    with Cons.prems obtain k where k: "first_close_prop xs = Some k" "i = Suc k"
      by auto
    from Cons.IH[OF k(1)] False k(2) show ?thesis
      by (auto simp: less_Suc_eq_0_disj)
  qed
qed

lemma first_close_prop_None:
  "first_close_prop b = None \<Longrightarrow> j \<le> length b \<Longrightarrow> \<not> close_prop (drop j b)"
proof (induction b arbitrary: j)
  case Nil
  then show ?case by (simp add: close_prop_def)
next
  case (Cons x xs)
  then show ?case
    by (cases j) (auto split: if_splits)
qed

lemma first_decl_Some:
  "first_decl b = Some p \<Longrightarrow>
     \<exists>i\<le>length b. dav_decl (drop i b) = Some p \<and> (\<forall>j<i. dav_decl (drop j b) = None)"
proof (induction b)
  case Nil
  then show ?case by simp
next
  case (Cons x xs)
  show ?case
  proof (cases "dav_decl (x # xs)")
    case (Some q)
    with Cons.prems have "dav_decl (drop 0 (x # xs)) = Some p"
      by simp
    then show ?thesis by blast
  next
    case None
    with Cons obtain i where i: "i \<le> length xs" "dav_decl (drop i xs) = Some p"
      "\<forall>j<i. dav_decl (drop j xs) = None"
      by auto
    have "\<forall>j<Suc i. dav_decl (drop j (x # xs)) = None"
      using None i(3) by (auto simp: less_Suc_eq_0_disj)
    with i(1,2) show ?thesis
      by (intro exI[of _ "Suc i"]) simp
  qed
qed

lemma first_decl_None:
  "first_decl b = None \<Longrightarrow> dav_decl (drop j b) = None"
proof (induction b arbitrary: j)
  case Nil
  then show ?case by (simp add: dav_decl_def)
next
  case (Cons x xs)
  then show ?case
    by (cases j) (auto split: option.splits)
qed

text \<open>
  C3, as the code has it. The prefix is the one of the leftmost \<^verbatim>\<open>xmlns:p="DAV:"\<close> in the
  body, with \<open>p\<close> a non-empty run of letters, digits and underscores, and \<^verbatim>\<open>D\<close> when there
  is none. The two elements, with that prefix and the two counts in decimal, go
  immediately before the leftmost closing tag whose name is a run of letters, digits,
  underscores and colons that ends in \<^verbatim>\<open>prop\<close>; when there is none, the body is left as
  it is.
\<close>

theorem quota_injection:
  "nsPrefix b = (case first_decl b of None \<Rightarrow> ''D'' | Some p \<Rightarrow> p) \<and>
   injectQuota b free used =
     (case first_close_prop b of
        None \<Rightarrow> b
      | Some i \<Rightarrow>
          take i b @
          ''<'' @ nsPrefix b @ '':quota-available-bytes>'' @ FormatUint (unat free) @
          ''</'' @ nsPrefix b @ '':quota-available-bytes>'' @
          ''<'' @ nsPrefix b @ '':quota-used-bytes>'' @ FormatUint (unat used) @
          ''</'' @ nsPrefix b @ '':quota-used-bytes>'' @
          drop i b)"
  by (simp add: nsPrefix_spec injectQuota_spec quotaXML_def split: option.splits)

theorem quota_injection_witness:
  \<open>nsPrefix ex_body_x = ''x'' \<and>
   injectQuota ex_body_x 6 4 =
     take 62 ex_body_x @
     ''<x:quota-available-bytes>6</x:quota-available-bytes><x:quota-used-bytes>4</x:quota-used-bytes>'' @
     drop 62 ex_body_x \<and>
   nsPrefix ex_body_plain = ''D'' \<and>
   injectQuota ex_body_plain 6 4 =
     take 52 ex_body_plain @
     ''<D:quota-available-bytes>6</D:quota-available-bytes><D:quota-used-bytes>4</D:quota-used-bytes>'' @
     drop 52 ex_body_plain \<and>
   injectQuota ''<a></a>'' 6 4 = ''<a></a>''\<close>
proof -
  have e: "first_decl ex_body_x = Some ''x''" "first_close_prop ex_body_x = Some 62"
    "first_decl ex_body_plain = None" "first_close_prop ex_body_plain = Some 52"
    "first_close_prop ''<a></a>'' = None"
    "FormatUint (unat (6 :: uint64)) = ''6''" "FormatUint (unat (4 :: uint64)) = ''4''"
    by code_simp+
  from quota_injection[of ex_body_x 6 4] quota_injection[of ex_body_plain 6 4]
    quota_injection[of "''<a></a>''" 6 4]
  show ?thesis
    unfolding e by simp
qed

text \<open>
  C3 as stated fails. This body binds the prefix \<^verbatim>\<open>a-b\<close> to \<^verbatim>\<open>DAV:\<close> and has the closing
  tag \<^verbatim>\<open></a-b:prop>\<close>, whose local name is \<^verbatim>\<open>prop\<close>, at position 72. The middleware finds
  no declaration (it takes \<^verbatim>\<open>D\<close>) and no closing tag: the body is served unmodified.
\<close>

theorem quota_injection_counterexample:
  "first_xml_close_prop ex_body_hyphen = Some 72 \<and>
   injectQuota ex_body_hyphen 6 4 = ex_body_hyphen \<and>
   nsPrefix ex_body_hyphen = ''D''"
  by code_simp


section \<open>The user store\<close>


lemma Authenticate_absent:
  "map_index (Users t) u = None \<Longrightarrow> Authenticate B t u q = Returns False"
  by (simp add: Authenticate_def)

lemma bcrypt_key_length: "length (bcrypt_key p) = 72"
proof -
  have "72 \<le> length (concat (replicate 72 (p @ [CHR 0x00])))"
    by (simp add: length_concat sum_list_replicate)
  then show ?thesis by (simp add: bcrypt_key_def)
qed

lemma bcrypt_key_short:
  assumes "length p < 72"
  shows "bcrypt_key p ! length p = CHR 0x00" "bcrypt_key (p @ ''x'') ! length p = CHR ''x''"
proof -
  have a: "concat (replicate 72 (p @ [CHR 0x00])) = (p @ [CHR 0x00]) @ concat (replicate 71 (p @ [CHR 0x00]))"
    by (simp add: numeral_eq_Suc)
  have b: "concat (replicate 72 ((p @ ''x'') @ [CHR 0x00])) =
       ((p @ ''x'') @ [CHR 0x00]) @ concat (replicate 71 ((p @ ''x'') @ [CHR 0x00]))"
    by (simp add: numeral_eq_Suc)
  show "bcrypt_key p ! length p = CHR 0x00"
    using assms unfolding bcrypt_key_def a by (simp add: nth_append)
  show "bcrypt_key (p @ ''x'') ! length p = CHR ''x''"
    using assms unfolding bcrypt_key_def b by (simp add: nth_append)
qed

lemma bcrypt_key_long: "72 \<le> length p \<Longrightarrow> bcrypt_key p = take 72 p"
proof -
  have "concat (replicate 72 (p @ [CHR 0x00])) = p @ CHR 0x00 # concat (replicate 71 (p @ [CHR 0x00]))"
    by (simp add: numeral_eq_Suc)
  then show "72 \<le> length p \<Longrightarrow> bcrypt_key p = take 72 p"
    by (simp add: bcrypt_key_def)
qed

text \<open>The key bytes of a password and of the password followed by \<^verbatim>\<open>x\<close>.\<close>

lemma bcrypt_key_x:
  assumes "length p \<le> 72"
  shows "(bcrypt_key (p @ ''x'') = bcrypt_key p) = (length p = 72)"
proof (cases "length p = 72")
  case True
  then show ?thesis by (simp add: bcrypt_key_long)
next
  case False
  with assms have "length p < 72" by simp
  from bcrypt_key_short[OF this] False show ?thesis by auto
qed

lemma ideal_bcrypt_spec: "bcrypt_spec (ideal_bcrypt salt)"
  unfolding bcrypt_spec_def
proof (intro allI)
  fix p :: string and c :: nat
  define pre where "pre = ''$2a$'' @ FormatUint c @ ''$'' @ salt @ ''$''"
  define h where "h = pre @ bcrypt_key p"
  have d: "drop (length h - 72) h = bcrypt_key p" and l: "\<not> length h < 72"
    unfolding h_def by (simp_all add: bcrypt_key_length)
  have "CompareHashAndPassword (ideal_bcrypt salt) h q = None \<longleftrightarrow> bcrypt_key q = bcrypt_key p" for q
    unfolding ideal_bcrypt_def using l d by auto
  moreover have "GenerateFromPassword (ideal_bcrypt salt) p c = Inr h" if "\<not> length p > 72"
    using that by (simp add: ideal_bcrypt_def h_def pre_def)
  moreover have "GenerateFromPassword (ideal_bcrypt salt) p c = Inl ErrPasswordTooLong"
    if "length p > 72"
    using that by (simp add: ideal_bcrypt_def)
  ultimately show "if length p > 72
      then GenerateFromPassword (ideal_bcrypt salt) p c = Inl ErrPasswordTooLong
      else \<exists>h. GenerateFromPassword (ideal_bcrypt salt) p c = Inr h \<and>
             (\<forall>q. (CompareHashAndPassword (ideal_bcrypt salt) h q = None) =
                  (bcrypt_key q = bcrypt_key p))"
    by auto
qed

text \<open>
  C7, as the code has it, with a bcrypt that behaves as the package does. On a store whose
  map is not nil and for a user name that is not present: \<^verbatim>\<open>Add\<close> with a password longer
  than 72 bytes fails with the error of hash generation and leaves the store as it was;
  with any other password \<^verbatim>\<open>Add\<close> succeeds and stores a record under the name, and right
  after \<^verbatim>\<open>Authenticate\<close> answers true for the password, and for the password followed by
  \<^verbatim>\<open>x\<close> it answers false when the password is shorter than 72 bytes and true when it has
  72 bytes. On any store, \<^verbatim>\<open>Authenticate\<close> answers false for a user name that is absent.
\<close>

theorem add_then_authenticate:
  assumes "bcrypt_spec B" and "Users s = Some m" and "fmlookup m u = None"
  shows "(if length p > 72
          then Add B s u p = Returns (s, Some (ErrHash ErrPasswordTooLong))
          else \<exists>h. Add B s u p =
                   Returns (s\<lparr>Users := Some (fmupd u (Some \<lparr>Username = u, PasswordHash = h\<rparr>) m)\<rparr>,
                            None) \<and>
                 Authenticate B
                   (s\<lparr>Users := Some (fmupd u (Some \<lparr>Username = u, PasswordHash = h\<rparr>) m)\<rparr>) u p =
                   Returns True \<and>
                 Authenticate B
                   (s\<lparr>Users := Some (fmupd u (Some \<lparr>Username = u, PasswordHash = h\<rparr>) m)\<rparr>) u
                   (p @ ''x'') = Returns (length p = 72)) \<and>
         (map_index (Users t) u' = None \<longrightarrow> Authenticate B t u' q = Returns False)"
proof (cases "length p > 72")
  case True
  with assms(1) have "GenerateFromPassword B p DefaultCost = Inl ErrPasswordTooLong"
    unfolding bcrypt_spec_def by metis
  with True assms(2,3) show ?thesis
    by (simp add: Add_def Authenticate_def map_index_def)
next
  case False
  with assms(1) obtain h where g: "GenerateFromPassword B p DefaultCost = Inr h"
    and c: "\<And>q. (CompareHashAndPassword B h q = None) = (bcrypt_key q = bcrypt_key p)"
    unfolding bcrypt_spec_def by metis
  from False have "length p \<le> 72" by simp
  note x = bcrypt_key_x[OF this]
  let ?s = "s\<lparr>Users := Some (fmupd u (Some \<lparr>Username = u, PasswordHash = h\<rparr>) m)\<rparr>"
  have a: "Add B s u p = Returns (?s, None)"
    using assms(2,3) g by (simp add: Add_def map_index_def map_assign_def)
  have b: "Authenticate B ?s u q = Returns (bcrypt_key q = bcrypt_key p)" for q
    by (simp add: Authenticate_def map_index_def c)
  have "Authenticate B ?s u p = Returns True" "Authenticate B ?s u (p @ ''x'') = Returns (length p = 72)"
    unfolding b x by simp_all
  with a False show ?thesis
    by (auto simp: Authenticate_def)
qed

theorem add_then_authenticate_witness:
  "(\<exists>h. Add (ideal_bcrypt ''NaCl'') ex_store ''bob'' ''secret'' =
          Returns (ex_store\<lparr>Users := Some (fmupd ''bob''
            (Some \<lparr>Username = ''bob'', PasswordHash = h\<rparr>)
            (fmupd ''alice'' (Some \<lparr>Username = ''alice'', PasswordHash = ''$2a$10$h''\<rparr>) fmempty))\<rparr>,
            None) \<and>
        Authenticate (ideal_bcrypt ''NaCl'') (ex_store\<lparr>Users := Some (fmupd ''bob''
            (Some \<lparr>Username = ''bob'', PasswordHash = h\<rparr>)
            (fmupd ''alice'' (Some \<lparr>Username = ''alice'', PasswordHash = ''$2a$10$h''\<rparr>) fmempty))\<rparr>)
          ''bob'' ''secret'' = Returns True \<and>
        Authenticate (ideal_bcrypt ''NaCl'') (ex_store\<lparr>Users := Some (fmupd ''bob''
            (Some \<lparr>Username = ''bob'', PasswordHash = h\<rparr>)
            (fmupd ''alice'' (Some \<lparr>Username = ''alice'', PasswordHash = ''$2a$10$h''\<rparr>) fmempty))\<rparr>)
          ''bob'' ''secretx'' = Returns False) \<and>
   Add (ideal_bcrypt ''NaCl'') ex_store ''bob'' (replicate 73 CHR ''a'') =
     Returns (ex_store, Some (ErrHash ErrPasswordTooLong)) \<and>
   Authenticate (ideal_bcrypt ''NaCl'') ex_store ''carol'' ''secret'' = Returns False"
proof -
  let ?m = "fmupd ''alice'' (Some \<lparr>Username = ''alice'', PasswordHash = ''$2a$10$h''\<rparr>) fmempty"
  have a: "Users ex_store = Some ?m" "fmlookup ?m ''bob'' = None"
    by (simp_all add: ex_store_def)
  have n: "map_index (Users ex_store) ''carol'' = None"
    by (simp add: ex_store_def map_index_def)
  let ?s = "\<lambda>h. ex_store\<lparr>Users := Some (fmupd ''bob'' (Some \<lparr>Username = ''bob'', PasswordHash = h\<rparr>) ?m)\<rparr>"
  from add_then_authenticate[OF ideal_bcrypt_spec[of "''NaCl''"] a, where p = "''secret''"
      and t = ex_store and u' = "''carol''" and q = "''secret''"]
  obtain h where h: "Add (ideal_bcrypt ''NaCl'') ex_store ''bob'' ''secret'' = Returns (?s h, None)"
      "Authenticate (ideal_bcrypt ''NaCl'') (?s h) ''bob'' ''secret'' = Returns True"
      "Authenticate (ideal_bcrypt ''NaCl'') (?s h) ''bob'' (''secret'' @ ''x'') = Returns False"
    and c: "Authenticate (ideal_bcrypt ''NaCl'') ex_store ''carol'' ''secret'' = Returns False"
    using n by auto
  from add_then_authenticate[OF ideal_bcrypt_spec[of "''NaCl''"] a, where p = "replicate 73 CHR ''a''"]
  have l: "Add (ideal_bcrypt ''NaCl'') ex_store ''bob'' (replicate 73 CHR ''a'') =
     Returns (ex_store, Some (ErrHash ErrPasswordTooLong))"
    by simp
  from h have "Add (ideal_bcrypt ''NaCl'') ex_store ''bob'' ''secret'' = Returns (?s h, None) \<and>
      Authenticate (ideal_bcrypt ''NaCl'') (?s h) ''bob'' ''secret'' = Returns True \<and>
      Authenticate (ideal_bcrypt ''NaCl'') (?s h) ''bob'' ''secretx'' = Returns False"
    by simp
  then show ?thesis
    using l c by blast
qed

text \<open>
  C7 as stated fails on passwords of 72 bytes and more, and on a store whose map is nil.
  With \<^verbatim>\<open>bob\<close> absent, \<^verbatim>\<open>Add\<close> with a password of 73 bytes fails, because hash generation
  refuses it; after \<^verbatim>\<open>Add\<close> with a password of 72 bytes, \<^verbatim>\<open>Authenticate\<close> accepts that
  password followed by \<^verbatim>\<open>x\<close>; and on the nil map the assignment in \<^verbatim>\<open>Add\<close> panics.
\<close>

theorem add_then_authenticate_counterexample:
  "map_index (Users ex_store) ''bob'' = None \<and>
   Add (ideal_bcrypt ''NaCl'') ex_store ''bob'' (replicate 73 CHR ''a'') =
     Returns (ex_store, Some (ErrHash ErrPasswordTooLong)) \<and>
   (case Add (ideal_bcrypt ''NaCl'') ex_store ''bob'' (replicate 72 CHR ''a'') of
      Returns (s', None) \<Rightarrow>
        Authenticate (ideal_bcrypt ''NaCl'') s' ''bob'' (replicate 72 CHR ''a'' @ ''x'') = Returns True
    | _ \<Rightarrow> False) \<and>
   map_index (Users ex_store_nil) ''bob'' = None \<and>
   Add (ideal_bcrypt ''NaCl'') ex_store_nil ''bob'' ''secret'' = Panics"
proof -
  have k: "bcrypt_key (replicate 72 CHR ''a'') = replicate 72 CHR ''a''"
    "bcrypt_key (replicate 72 CHR ''a'' @ ''x'') = replicate 72 CHR ''a''"
    by (simp_all add: bcrypt_key_long)
  have l: "length (bcrypt_key p) = 72" for p
    by (rule bcrypt_key_length)
  define pre where "pre = ''$2a$'' @ FormatUint DefaultCost @ ''$'' @ ''NaCl'' @ ''$''"
  have g: "GenerateFromPassword (ideal_bcrypt ''NaCl'') (replicate 72 CHR ''a'') DefaultCost =
             Inr (pre @ replicate 72 CHR ''a'')"
    by (simp add: ideal_bcrypt_def k pre_def)
  have c: "CompareHashAndPassword (ideal_bcrypt ''NaCl'') (pre @ replicate 72 CHR ''a'')
             (replicate 72 CHR ''a'' @ ''x'') = None"
    by (simp add: ideal_bcrypt_def k)
  have t: "GenerateFromPassword (ideal_bcrypt ''NaCl'') (replicate 73 CHR ''a'') DefaultCost =
             Inl ErrPasswordTooLong"
    by (simp add: ideal_bcrypt_def)
  have n: "map_index (Users ex_store) ''bob'' = None"
    by (simp add: ex_store_def map_index_def)
  have s: "GenerateFromPassword (ideal_bcrypt ''NaCl'') ''secret'' DefaultCost =
             Inr (pre @ bcrypt_key ''secret'')"
    by (simp add: ideal_bcrypt_def pre_def)
  have p: "Add (ideal_bcrypt ''NaCl'') ex_store_nil ''bob'' ''secret'' = Panics"
    by (simp add: Add_def s map_index_def map_assign_def ex_store_nil_def)
  have q: "map_index (Users ex_store_nil) ''bob'' = None"
    by (simp add: map_index_def ex_store_nil_def)
  have r: "Add (ideal_bcrypt ''NaCl'') ex_store ''bob'' (replicate 73 CHR ''a'') =
     Returns (ex_store, Some (ErrHash ErrPasswordTooLong)) \<and>
   (case Add (ideal_bcrypt ''NaCl'') ex_store ''bob'' (replicate 72 CHR ''a'') of
      Returns (s', None) \<Rightarrow>
        Authenticate (ideal_bcrypt ''NaCl'') s' ''bob'' (replicate 72 CHR ''a'' @ ''x'') = Returns True
    | _ \<Rightarrow> False)"
    using n by (simp add: Add_def g t c Authenticate_def map_index_def map_assign_def ex_store_def)
  show ?thesis
    using n p q r by blast
qed

text \<open>
  C8. \<^verbatim>\<open>Add\<close> on a user name that is present returns an error and the store as it was;
  when the name is absent and hash generation fails, \<^verbatim>\<open>Add\<close> returns that error and the
  store as it was.
\<close>

theorem add_failure_leaves_store:
  "(map_index (Users s) u \<noteq> None \<longrightarrow> Add B s u p = Returns (s, Some (ErrUserExists u))) \<and>
   (map_index (Users s) u = None \<and> GenerateFromPassword B p DefaultCost = Inl e \<longrightarrow>
      Add B s u p = Returns (s, Some (ErrHash e)))"
  by (auto simp: Add_def)

theorem add_failure_leaves_store_witness:
  "Add (ideal_bcrypt ''NaCl'') ex_store ''alice'' ''secret'' =
     Returns (ex_store, Some (ErrUserExists ''alice'')) \<and>
   Add (ideal_bcrypt ''NaCl'') ex_store ''bob'' (replicate 73 CHR ''a'') =
     Returns (ex_store, Some (ErrHash ErrPasswordTooLong))"
proof -
  have a: "map_index (Users ex_store) ''alice'' \<noteq> None"
    by (simp add: ex_store_def map_index_def)
  have b: "map_index (Users ex_store) ''bob'' = None \<and>
           GenerateFromPassword (ideal_bcrypt ''NaCl'') (replicate 73 CHR ''a'') DefaultCost =
             Inl ErrPasswordTooLong"
    by (simp add: ex_store_def map_index_def ideal_bcrypt_def)
  from add_failure_leaves_store[of ex_store "''alice''" "ideal_bcrypt ''NaCl''" "''secret''"]
    add_failure_leaves_store[of ex_store "''bob''" "ideal_bcrypt ''NaCl''" "replicate 73 CHR ''a''"
      ErrPasswordTooLong]
  show ?thesis
    using a b by blast
qed

lemma store_inv_iff:
  "store_inv s \<longleftrightarrow>
     (\<forall>k v. map_index (Users s) k = Some v \<longrightarrow> (\<exists>usr. v = Some usr \<and> Username usr = k))"
proof
  assume a: "store_inv s"
  show "\<forall>k v. map_index (Users s) k = Some v \<longrightarrow> (\<exists>usr. v = Some usr \<and> Username usr = k)"
  proof (intro allI impI)
    fix k v
    assume "map_index (Users s) k = Some v"
    with a[unfolded store_inv_def, rule_format, of k]
    show "\<exists>usr. v = Some usr \<and> Username usr = k"
      by (cases v) simp_all
  qed
next
  assume "\<forall>k v. map_index (Users s) k = Some v \<longrightarrow> (\<exists>usr. v = Some usr \<and> Username usr = k)"
  then show "store_inv s"
    unfolding store_inv_def by (auto split: option.splits)
qed

lemma store_inv_Delete: "store_inv s \<Longrightarrow> store_inv (Delete s u)"
  unfolding store_inv_iff Delete_def map_index_def map_delete_def
  by (cases "Users s") (auto split: if_splits)

lemma store_inv_Add:
  assumes "store_inv s" and "Add B s u p = Returns (s', e)"
  shows "store_inv s'"
proof (cases e)
  case (Some err)
  with assms(2) have "s' = s"
    by (auto simp: Add_def map_assign_def split: option.splits sum.splits)
  with assms(1) show ?thesis by simp
next
  case None
  with assms(2) obtain m h where m: "Users s = Some m"
    and s': "s' = s\<lparr>Users := Some (fmupd u (Some \<lparr>Username = u, PasswordHash = h\<rparr>) m)\<rparr>"
    by (auto simp: Add_def map_assign_def split: option.splits sum.splits)
  show ?thesis
    using assms(1) unfolding store_inv_iff s' map_index_def m
    by (auto split: if_splits)
qed

text \<open>
  C10. The invariant holds of the empty store \<^verbatim>\<open>NewStore\<close> starts from, and \<^verbatim>\<open>Delete\<close>
  and every \<^verbatim>\<open>Add\<close> that returns preserve it.
\<close>

theorem store_invariant:
  "store_inv (emptyStore path) \<and>
   (store_inv s \<longrightarrow>
      store_inv (Delete s u) \<and>
      (case Add B s v p of Returns (s', e) \<Rightarrow> store_inv s' | Panics \<Rightarrow> True))"
proof -
  have "store_inv (emptyStore path)"
    by (simp add: store_inv_def emptyStore_def map_index_def)
  then show ?thesis
    using store_inv_Delete[of s u] store_inv_Add[of s B v p]
    by (auto split: run.splits)
qed


theorem store_invariant_witness:
  "store_inv (emptyStore ''users.json'') \<and>
   store_inv ex_store \<and>
   store_inv (Delete ex_store ''alice'') \<and>
   store_inv (ex_store\<lparr>Users := Some (fmupd ''bob''
       (Some \<lparr>Username = ''bob'', PasswordHash = ''$2a$10$NaCl$'' @ bcrypt_key ''secret''\<rparr>)
       (fmupd ''alice'' (Some \<lparr>Username = ''alice'', PasswordHash = ''$2a$10$h''\<rparr>) fmempty))\<rparr>)"
proof -
  have i: "store_inv ex_store"
    unfolding store_inv_iff by (auto simp: ex_store_def map_index_def split: if_splits)
  have a: "Add (ideal_bcrypt ''NaCl'') ex_store ''bob'' ''secret'' =
     Returns (ex_store\<lparr>Users := Some (fmupd ''bob''
       (Some \<lparr>Username = ''bob'', PasswordHash = ''$2a$10$NaCl$'' @ bcrypt_key ''secret''\<rparr>)
       (fmupd ''alice'' (Some \<lparr>Username = ''alice'', PasswordHash = ''$2a$10$h''\<rparr>) fmempty))\<rparr>, None)"
  proof -
    have "FormatUint DefaultCost = ''10''"
      unfolding DefaultCost_def by code_simp
    then show ?thesis
      by (simp add: Add_def ideal_bcrypt_def map_index_def map_assign_def ex_store_def)
  qed
  from store_invariant[of "''users.json''" ex_store "''alice''" "ideal_bcrypt ''NaCl''" "''bob''"
      "''secret''"]
  show ?thesis
    using i unfolding a by simp
qed

section \<open>Saving and loading the store\<close>

subsection \<open>Arithmetic of the UTF-8 bit fields\<close>











subsection \<open>\<^verbatim>\<open>DecodeRune\<close> and \<^verbatim>\<open>EncodeRune\<close>\<close>


subsection \<open>\<^verbatim>\<open>unquote\<close> undoes the escaping of valid UTF-8\<close>












subsection \<open>The scanner on a quoted string\<close>



lemma scan_simple:
  assumes "simple_escape e"
  shows "scan (InString l) (CHR 0x5C # e # rest) = scan (InString (l @ [CHR 0x5C, e])) rest"
  using assms by simp





subsection \<open>The scanner on the text of \<^verbatim>\<open>MarshalIndent\<close>\<close>














subsection \<open>The decoder on the tokens\<close>









subsection \<open>The round trip\<close>

















end
